theory Spec2Isabelle
  imports Main
begin

section \<open>Terms and the semester sequencer\<close>

text \<open>
  The objects \<^verbatim>\<open>{ season, year }\<close> of \<^verbatim>\<open>generate-plan.ts\<close>. A season read from
  \<^verbatim>\<open>seasons[i]\<close> outside the array is \<^verbatim>\<open>undefined\<close> (\<open>None\<close>); a year produced by
  \<^verbatim>\<open>parseInt\<close> may be \<^verbatim>\<open>NaN\<close> (\<open>None\<close>). Years are integers: the double-precision
  rounding of JavaScript numbers beyond \<open>2^53\<close> is outside the model.
\<close>

record SeasonYear =
  season :: "string option"
  year :: "int option"

definition seasons :: "string list" where
  "seasons = [''spring'', ''summer'', ''fall'']"

text \<open>\<^verbatim>\<open>Array.prototype.indexOf\<close>: the first position of the element, or \<open>-1\<close>.\<close>

fun indexOf :: "'a list \<Rightarrow> 'a \<Rightarrow> int" where
  "indexOf [] x = -1"
| "indexOf (y # ys) x =
     (if y = x then 0 else (let i = indexOf ys x in if i < 0 then -1 else i + 1))"

definition seasonIndex :: "string option \<Rightarrow> int" where
  "seasonIndex s = (case s of None \<Rightarrow> -1 | Some x \<Rightarrow> indexOf seasons x)"

text \<open>An array read \<^verbatim>\<open>xs[i]\<close>: \<^verbatim>\<open>undefined\<close> outside the array.\<close>

definition at :: "'a list \<Rightarrow> int \<Rightarrow> 'a option" where
  "at xs i = (if 0 \<le> i \<and> i < int (length xs) then Some (xs ! nat i) else None)"

text \<open>
  The \<^verbatim>\<open>while\<close> loop of \<^verbatim>\<open>generateSemesterSequence\<close>, for numeric years. The list that
  the source builds by \<^verbatim>\<open>push\<close> is returned front to back.
\<close>

function semesterLoop :: "int \<Rightarrow> int \<Rightarrow> int \<Rightarrow> int \<Rightarrow> SeasonYear list" where
  "semesterLoop endYear endIndex currentYear currentSeasonIndex =
     (if currentYear < endYear \<or> (currentYear = endYear \<and> currentSeasonIndex \<le> endIndex)
      then \<lparr>season = at seasons currentSeasonIndex, year = Some currentYear\<rparr> #
        (if currentSeasonIndex + 1 \<ge> int (length seasons)
         then semesterLoop endYear endIndex (currentYear + 1) 0
         else semesterLoop endYear endIndex currentYear (currentSeasonIndex + 1))
      else [])"
  by pat_completeness auto
termination
  by (relation "measures [\<lambda>(ey, ei, cy, ci). nat (ey + 1 - cy), \<lambda>(ey, ei, cy, ci). nat (3 - ci)]")
     (auto simp: seasons_def)

declare semesterLoop.simps [simp del]

text \<open>
  A comparison with \<^verbatim>\<open>NaN\<close> is false, so the loop body never runs when either year is
  \<^verbatim>\<open>NaN\<close>.
\<close>

definition generateSemesterSequence :: "SeasonYear \<Rightarrow> SeasonYear \<Rightarrow> SeasonYear list" where
  "generateSemesterSequence start end =
     (case (year start, year end) of
        (Some sy, Some ey) \<Rightarrow>
          semesterLoop ey (seasonIndex (season end)) sy (seasonIndex (season start))
      | _ \<Rightarrow> [])"

subsection \<open>The cyclic walk of the specification\<close>

text \<open>
  The successor of a term in the cycle spring, summer, fall, spring of the next year, and
  the walk of \<open>n\<close> terms from a term on, written from the specification's words.
\<close>

definition next_term :: "SeasonYear \<Rightarrow> SeasonYear" where
  "next_term t =
     (if season t = Some ''spring'' then t\<lparr>season := Some ''summer''\<rparr>
      else if season t = Some ''summer'' then t\<lparr>season := Some ''fall''\<rparr>
      else \<lparr>season = Some ''spring'', year = map_option (\<lambda>y. y + 1) (year t)\<rparr>)"

fun cyclic_walk :: "nat \<Rightarrow> SeasonYear \<Rightarrow> SeasonYear list" where
  "cyclic_walk 0 t = []"
| "cyclic_walk (Suc n) t = t # cyclic_walk n (next_term t)"


section \<open>Strings and numbers as JavaScript reads and prints them\<close>

text \<open>
  Characters are bytes here; the helpers below cover the ASCII range, which is where
  course codes, seasons and years live. The Unicode white space and letters that
  JavaScript also knows are outside the model.
\<close>

definition is_upper :: "char \<Rightarrow> bool" where
  "is_upper c = (let n = (of_char c :: int) in 65 \<le> n \<and> n \<le> 90)"

definition is_digit :: "char \<Rightarrow> bool" where
  "is_digit c = (let n = (of_char c :: int) in 48 \<le> n \<and> n \<le> 57)"

definition is_space :: "char \<Rightarrow> bool" where
  "is_space c = (let n = (of_char c :: int) in n = 32 \<or> (9 \<le> n \<and> n \<le> 13))"

text \<open>\<^verbatim>\<open>String.prototype.toLowerCase\<close>.\<close>

definition toLowerCase :: "string \<Rightarrow> string" where
  "toLowerCase s = map (\<lambda>c. if is_upper c then char_of ((of_char c :: int) + 32) else c) s"

text \<open>\<^verbatim>\<open>s.split(sep)\<close> for a one-character separator; the result is never empty.\<close>

fun split :: "char \<Rightarrow> string \<Rightarrow> string list" where
  "split sep [] = [[]]"
| "split sep (c # cs) =
     (if c = sep then [] # split sep cs
      else (case split sep cs of [] \<Rightarrow> [[c]] | w # ws \<Rightarrow> (c # w) # ws))"

text \<open>
  \<^verbatim>\<open>parseInt\<close> with no radix argument: leading white space, a sign, a \<^verbatim>\<open>0x\<close> prefix for
  hexadecimal, then the longest run of digits; \<^verbatim>\<open>NaN\<close> (\<open>None\<close>) when that run is empty.
  An \<^verbatim>\<open>undefined\<close> argument is first turned into the text \<^verbatim>\<open>undefined\<close>.
\<close>

definition digit_value :: "char \<Rightarrow> int" where
  "digit_value c =
     (let n = (of_char c :: int) in
      if 48 \<le> n \<and> n \<le> 57 then n - 48
      else if 97 \<le> n \<and> n \<le> 102 then n - 87
      else if 65 \<le> n \<and> n \<le> 70 then n - 55
      else 16)"

definition parseInt_digits :: "int \<Rightarrow> string \<Rightarrow> int option" where
  "parseInt_digits radix s =
     (let ds = takeWhile (\<lambda>c. digit_value c < radix) s in
      if ds = [] then None
      else Some (foldl (\<lambda>acc c. acc * radix + digit_value c) 0 ds))"

definition parseInt_unsigned :: "string \<Rightarrow> int option" where
  "parseInt_unsigned s =
     (if take 2 s = ''0x'' \<or> take 2 s = ''0X'' then parseInt_digits 16 (drop 2 s)
      else parseInt_digits 10 s)"

definition parseInt :: "string option \<Rightarrow> int option" where
  "parseInt v =
     (let s = dropWhile is_space (case v of None \<Rightarrow> ''undefined'' | Some t \<Rightarrow> t) in
      case s of
        [] \<Rightarrow> None
      | c # cs \<Rightarrow>
          if c = CHR ''-'' then map_option uminus (parseInt_unsigned cs)
          else if c = CHR ''+'' then parseInt_unsigned cs
          else parseInt_unsigned s)"

text \<open>
  A number inside a template literal: decimal digits, or \<^verbatim>\<open>NaN\<close>. \<open>show_nat\<close> prints a
  number that is not negative.
\<close>

definition digit_char :: "int \<Rightarrow> char" where
  "digit_char n = char_of (48 + n)"

function show_nat :: "int \<Rightarrow> string" where
  "show_nat n = (if n < 10 then [digit_char n] else show_nat (n div 10) @ [digit_char (n mod 10)])"
  by pat_completeness auto
termination
  by (relation "measure nat") auto

declare show_nat.simps [simp del]

definition show_int :: "int \<Rightarrow> string" where
  "show_int i = (if i < 0 then CHR ''-'' # show_nat (- i) else show_nat i)"

definition show_number :: "int option \<Rightarrow> string" where
  "show_number v = (case v of None \<Rightarrow> ''NaN'' | Some i \<Rightarrow> show_int i)"

definition show_text :: "string option \<Rightarrow> string" where
  "show_text v = (case v of None \<Rightarrow> ''undefined'' | Some s \<Rightarrow> s)"

text \<open>\<^verbatim>\<open>parseSemester\<close>: the text before the first space, lower-cased, and the number after it.\<close>

definition parseSemester :: "string \<Rightarrow> SeasonYear" where
  "parseSemester semesterString =
     (case split CHR '' '' semesterString of
        [] \<Rightarrow> \<lparr>season = None, year = parseInt None\<rparr>
      | [s] \<Rightarrow> \<lparr>season = Some (toLowerCase s), year = parseInt None\<rparr>
      | s # yearStr # _ \<Rightarrow> \<lparr>season = Some (toLowerCase s), year = parseInt (Some yearStr)\<rparr>)"

text \<open>The key \<^verbatim>\<open>`${semester.season} ${semester.year}`\<close> under which a placement is filed.\<close>

definition semesterKey :: "SeasonYear \<Rightarrow> string" where
  "semesterKey sem = show_text (season sem) @ '' '' @ show_number (year sem)"

section \<open>The data of a generation request\<close>

text \<open>
  \<^verbatim>\<open>CompletedCourse\<close> carries \<^verbatim>\<open>course_id\<close> and \<^verbatim>\<open>credits\<close> (its optional \<^verbatim>\<open>grade\<close>,
  \<^verbatim>\<open>semester\<close> and \<^verbatim>\<open>source\<close> are never read by the generator). The records of the
  catalog, of a planned course and of an entry of the course sequence extend it, so that
  \<open>course_id\<close> and \<open>credits\<close> read all of them. Credits are integers.
\<close>

record CompletedCourse =
  course_id :: string
  credits :: int

record CourseRecord = CompletedCourse +
  name :: string
  prerequisites :: "string list"

text \<open>An entry of \<^verbatim>\<open>courseInfo\<close>.\<close>

record CourseInfo = CourseRecord +
  description :: string

text \<open>\<^verbatim>\<open>PlannedCourse\<close>, and the objects pushed by \<^verbatim>\<open>planCourseSequence\<close>.\<close>

record PlannedCourse = CourseRecord +
  satisfies :: "string list"

record SequencedCourse = PlannedCourse +
  plannedSemester :: string

text \<open>
  A requirement is an \<^verbatim>\<open>any\<close> with a \<^verbatim>\<open>category\<close> and an optional \<^verbatim>\<open>courses\<close> array;
  \<^verbatim>\<open>Major\<close> and \<^verbatim>\<open>Minor\<close> have one shape.
\<close>

record Requirement =
  category :: string
  courses :: "string list option"

record Program =
  code :: string
  program_name :: string
  requirements :: "Requirement list"

text \<open>
  The body of a request is not checked against \<^verbatim>\<open>GeneratePlanRequest\<close>, so fields can be
  absent. \<open>majors\<close> and \<open>completedCourses_field\<close> are \<open>None\<close> when the field is absent or
  \<^verbatim>\<open>null\<close>; a term value is \<open>None\<close> when it is absent, \<^verbatim>\<open>null\<close> or not a string;
  \<open>minors\<close> tells absent (the default \<^verbatim>\<open>[]\<close> applies) from \<^verbatim>\<open>null\<close> (no default). A field
  that is present has the type that the interface declares; the credit cap is a number.
\<close>

datatype 'a Field = Missing | Null | Given 'a

record GeneratePlanRequest =
  majors :: "Program list option"
  minors :: "Program list Field"
  completedCourses_field :: "CompletedCourse list option"
  startingSemester :: "string option"
  graduationTarget :: "string option"
  maxCreditsPerSemester :: int
  preferredCourseLoad :: string

text \<open>The completed courses of a request that has them.\<close>

definition completedCourses :: "GeneratePlanRequest \<Rightarrow> CompletedCourse list" where
  "completedCourses request = (case completedCourses_field request of None \<Rightarrow> [] | Some cs \<Rightarrow> cs)"

text \<open>The destructuring default \<^verbatim>\<open>minors = []\<close>: it replaces an absent field, not \<^verbatim>\<open>null\<close>.\<close>

definition defaulted :: "'a list Field \<Rightarrow> 'a list option" where
  "defaulted f = (case f of Missing \<Rightarrow> Some [] | Null \<Rightarrow> None | Given xs \<Rightarrow> Some xs)"

record SemesterPlan =
  semester :: "string option"
  sem_year :: "int option"
  sem_courses :: "PlannedCourse list"
  sem_totalCredits :: int

record GraduationPlan =
  plan_majors :: "Program list"
  plan_minors :: "Program list"
  semesters :: "SemesterPlan list"
  totalCredits :: int
  completionDate :: string
  warnings :: "string list"
  unmetRequirements :: "string list"

section \<open>Requirements already satisfied\<close>

definition requiredCoursesOf :: "Requirement \<Rightarrow> string list" where
  "requiredCoursesOf req = (case courses req of None \<Rightarrow> [] | Some cs \<Rightarrow> cs)"

definition checkSatisfiedRequirements ::
    "Requirement list \<Rightarrow> CompletedCourse list \<Rightarrow> string list" where
  "checkSatisfiedRequirements reqs completed =
     (let completedCourseIds = set (map course_id completed) in
      map category
        (filter (\<lambda>req. list_all (\<lambda>course. course \<in> completedCourseIds) (requiredCoursesOf req)
                       \<and> requiredCoursesOf req \<noteq> []) reqs))"

section \<open>The catalog lookup\<close>

text \<open>
  The first element of the array that the catalog service returns, as far as
  \<^verbatim>\<open>fetchCourseInformation\<close> reads it; a field that is absent is \<open>None\<close>, and \<open>api_credits\<close>
  is the text that \<^verbatim>\<open>parseInt\<close> sees.
\<close>

record ApiCourse =
  api_name :: "string option"
  api_credits :: "string option"
  api_prereqs :: "string option"
  api_description :: "string option"

text \<open>
  What one round of the \<^verbatim>\<open>try\<close> block comes to: an exception (of \<^verbatim>\<open>fetch\<close>, of
  \<^verbatim>\<open>response.json()\<close>, or of reading an element that has not the shape of a course), a
  response that is not \<^verbatim>\<open>ok\<close>, a body that is not a non-empty array, or a course.
\<close>

datatype FetchOutcome = FetchThrows | NotOk | NoData | Found ApiCourse

text \<open>
  The matches of \<^verbatim>\<open>/[A-Z]{4}\s*\d{3}[A-Z]?/g\<close>: \<open>match_code\<close> is the match at the start
  of a text, \<open>match_all\<close> scans from left to right, its first argument counting the
  characters of the current match still to be skipped.
\<close>

definition match_code :: "string \<Rightarrow> string option" where
  "match_code s =
     (let letters = take 4 s; r1 = drop 4 s;
          spaces = takeWhile is_space r1; r2 = dropWhile is_space r1;
          digits = take 3 r2; r3 = drop 3 r2
      in if length letters = 4 \<and> list_all is_upper letters
            \<and> length digits = 3 \<and> list_all is_digit digits
         then Some (letters @ spaces @ digits @
                (case r3 of [] \<Rightarrow> [] | c # _ \<Rightarrow> if is_upper c then [c] else []))
         else None)"

fun match_all :: "nat \<Rightarrow> string \<Rightarrow> string list" where
  "match_all k [] = []"
| "match_all (Suc k) (c # cs) = match_all k cs"
| "match_all 0 (c # cs) =
     (case match_code (c # cs) of
        Some m \<Rightarrow> m # match_all (length m - 1) cs
      | None \<Rightarrow> match_all 0 cs)"

definition parsePrerequisites :: "string \<Rightarrow> string list" where
  "parsePrerequisites prereqString =
     (if prereqString = [] then []
      else map (filter (\<lambda>c. \<not> is_space c)) (match_all 0 prereqString))"

text \<open>\<^verbatim>\<open>s || d\<close> on an optional text: the default when it is absent or empty.\<close>

definition text_or :: "string option \<Rightarrow> string \<Rightarrow> string" where
  "text_or v d = (case v of None \<Rightarrow> d | Some s \<Rightarrow> if s = [] then d else s)"

text \<open>\<^verbatim>\<open>parseInt(course.credits) || 3\<close>: 3 when the number is \<^verbatim>\<open>NaN\<close> or 0.\<close>

definition credits_or_default :: "int option \<Rightarrow> int" where
  "credits_or_default v = (case v of None \<Rightarrow> 3 | Some n \<Rightarrow> if n = 0 then 3 else n)"

definition fallbackCourse :: "string \<Rightarrow> CourseInfo" where
  "fallbackCourse courseId =
     \<lparr>course_id = courseId, credits = 3, name = courseId, prerequisites = [],
      description = []\<rparr>"

definition fetchedCourse :: "string \<Rightarrow> ApiCourse \<Rightarrow> CourseInfo" where
  "fetchedCourse courseId course =
     \<lparr>course_id = courseId,
      credits = credits_or_default (parseInt (api_credits course)),
      name = text_or (api_name course) courseId,
      prerequisites = parsePrerequisites (text_or (api_prereqs course) []),
      description = text_or (api_description course) []\<rparr>"

text \<open>
  One round of the loop of \<^verbatim>\<open>fetchCourseInformation\<close>, and the loop. The dictionary
  \<^verbatim>\<open>courseInfo\<close> is a map; the properties that a JavaScript object inherits (a course
  called \<^verbatim>\<open>constructor\<close>) are outside the model.
\<close>

definition fetchOne ::
    "(string \<Rightarrow> FetchOutcome) \<Rightarrow> (string \<rightharpoonup> CourseInfo) \<Rightarrow> string \<Rightarrow> (string \<rightharpoonup> CourseInfo)" where
  "fetchOne fetch courseInfo courseId =
     (case fetch courseId of
        Found course \<Rightarrow> courseInfo(courseId \<mapsto> fetchedCourse courseId course)
      | FetchThrows \<Rightarrow> courseInfo(courseId \<mapsto> fallbackCourse courseId)
      | NotOk \<Rightarrow> courseInfo
      | NoData \<Rightarrow> courseInfo)"

definition fetchCourseInformation ::
    "(string \<Rightarrow> FetchOutcome) \<Rightarrow> string list \<Rightarrow> (string \<rightharpoonup> CourseInfo)" where
  "fetchCourseInformation fetch courseIds = foldl (fetchOne fetch) Map.empty courseIds"

section \<open>The greedy placement\<close>

text \<open>
  The state of \<^verbatim>\<open>planCourseSequence\<close> inside one semester: \<^verbatim>\<open>plannedCourses\<close>, the set
  \<^verbatim>\<open>completed\<close> and \<^verbatim>\<open>currentCredits\<close>. \<open>planCourses\<close> is the loop over the courses of one
  requirement (\<^verbatim>\<open>continue\<close> goes on with the rest, \<^verbatim>\<open>break\<close> returns the state),
  \<open>planRequirements\<close> the loop over the requirements, \<open>planSemesters\<close> the loop over the
  semesters. The catalog records \<^verbatim>\<open>courseInfo\<close> are a map from the identifiers that
  \<^verbatim>\<open>fetchCourseInformation\<close> stored; the source reads a plain object, where an identifier
  that names an inherited property (\<^verbatim>\<open>constructor\<close>, \<^verbatim>\<open>toString\<close>) finds a value that is no
  course record and \<^verbatim>\<open>course.prerequisites.every\<close> raises. Course identifiers are taken not
  to be such names.
\<close>

type_synonym PlanState = "SequencedCourse list \<times> string set \<times> int"

fun planCourses ::
    "(string \<rightharpoonup> CourseInfo) \<Rightarrow> int \<Rightarrow> string \<Rightarrow> string \<Rightarrow> string list \<Rightarrow> PlanState \<Rightarrow> PlanState" where
  "planCourses courseInfo maxCredits key cat [] st = st"
| "planCourses courseInfo maxCredits key cat (courseId # rest) (plannedCourses, completed, currentCredits) =
     (if courseId \<in> completed
      then planCourses courseInfo maxCredits key cat rest (plannedCourses, completed, currentCredits)
      else if currentCredits \<ge> maxCredits then (plannedCourses, completed, currentCredits)
      else (case courseInfo courseId of
              None \<Rightarrow> planCourses courseInfo maxCredits key cat rest (plannedCourses, completed, currentCredits)
            | Some course \<Rightarrow>
                if list_all (\<lambda>prereq. prereq \<in> completed) (prerequisites course)
                then planCourses courseInfo maxCredits key cat rest
                       (plannedCourses @
                          [\<lparr>course_id = courseId, credits = credits course, name = name course,
                            prerequisites = prerequisites course, satisfies = [cat],
                            plannedSemester = key\<rparr>],
                        insert courseId completed,
                        currentCredits + credits course)
                else planCourses courseInfo maxCredits key cat rest (plannedCourses, completed, currentCredits)))"

fun planRequirements ::
    "(string \<rightharpoonup> CourseInfo) \<Rightarrow> int \<Rightarrow> string \<Rightarrow> Requirement list \<Rightarrow> PlanState \<Rightarrow> PlanState" where
  "planRequirements courseInfo maxCredits key [] st = st"
| "planRequirements courseInfo maxCredits key (req # reqs) st =
     (case courses req of
        None \<Rightarrow> planRequirements courseInfo maxCredits key reqs st
      | Some cs \<Rightarrow>
          planRequirements courseInfo maxCredits key reqs
            (planCourses courseInfo maxCredits key (category req) cs st))"

fun planSemesters ::
    "Requirement list \<Rightarrow> (string \<rightharpoonup> CourseInfo) \<Rightarrow> int \<Rightarrow> SeasonYear list \<Rightarrow>
     SequencedCourse list \<times> string set \<Rightarrow> SequencedCourse list \<times> string set" where
  "planSemesters reqs courseInfo maxCredits [] st = st"
| "planSemesters reqs courseInfo maxCredits (sem # sems) (plannedCourses, completed) =
     (case planRequirements courseInfo maxCredits (semesterKey sem) reqs (plannedCourses, completed, 0) of
        (plannedCourses', completed', currentCredits) \<Rightarrow>
          planSemesters reqs courseInfo maxCredits sems (plannedCourses', completed'))"

definition planCourseSequence ::
    "Requirement list \<Rightarrow> (string \<rightharpoonup> CourseInfo) \<Rightarrow> string list \<Rightarrow> SeasonYear list \<Rightarrow> int \<Rightarrow>
     SequencedCourse list" where
  "planCourseSequence reqs courseInfo completedIds availableSemesters maxCredits =
     fst (planSemesters reqs courseInfo maxCredits availableSemesters ([], set completedIds))"

section \<open>Assembling the plan\<close>

text \<open>
  The semester plan of one available semester: the entries of the course sequence filed
  under its key, without their \<^verbatim>\<open>plannedSemester\<close>, and the sum of their credits.
\<close>

definition toPlannedCourse :: "SequencedCourse \<Rightarrow> PlannedCourse" where
  "toPlannedCourse course =
     \<lparr>course_id = course_id course, credits = credits course, name = name course,
      prerequisites = prerequisites course, satisfies = satisfies course\<rparr>"

definition buildSemesterPlan :: "SequencedCourse list \<Rightarrow> SeasonYear \<Rightarrow> SemesterPlan" where
  "buildSemesterPlan courseSequence sem =
     (let cs = map toPlannedCourse
                 (filter (\<lambda>course. plannedSemester course = semesterKey sem) courseSequence)
      in \<lparr>semester = season sem, sem_year = year sem, sem_courses = cs,
          sem_totalCredits = sum_list (map credits cs)\<rparr>)"

definition semesterLabel :: "SemesterPlan \<Rightarrow> string" where
  "semesterLabel sem = show_text (semester sem) @ '' '' @ show_number (sem_year sem)"

definition generateWarnings :: "SemesterPlan list \<Rightarrow> int \<Rightarrow> string list" where
  "generateWarnings sems maxCredits =
     concat (map (\<lambda>sem.
       (if sem_totalCredits sem > maxCredits
        then [semesterLabel sem @ '': Overloaded with '' @ show_int (sem_totalCredits sem) @ '' credits'']
        else []) @
       (if sem_totalCredits sem < 12 \<and> sem_courses sem \<noteq> []
        then [semesterLabel sem @ '': Under full-time status with '' @ show_int (sem_totalCredits sem)
                @ '' credits'']
        else [])) sems)"

definition findUnmetRequirements :: "Requirement list \<Rightarrow> SequencedCourse list \<Rightarrow> string list" where
  "findUnmetRequirements allRequirements plannedCourses =
     (let plannedCourseIds = set (map course_id plannedCourses) in
      map category
        (filter (\<lambda>req. case courses req of
                          None \<Rightarrow> False
                        | Some cs \<Rightarrow> \<not> list_ex (\<lambda>course. course \<in> plannedCourseIds) cs)
           allRequirements))"

text \<open>
  The identifiers of the remaining requirements, in the order in which a \<^verbatim>\<open>Set\<close> keeps
  them: each at its first insertion.
\<close>

definition set_add :: "'a list \<Rightarrow> 'a \<Rightarrow> 'a list" where
  "set_add xs x = (if x \<in> set xs then xs else xs @ [x])"

definition collectRequiredCourses :: "Requirement list \<Rightarrow> string list" where
  "collectRequiredCourses reqs = foldl (\<lambda>acc req. foldl set_add acc (requiredCoursesOf req)) [] reqs"

section \<open>The generator and its handler\<close>

text \<open>
  The requirements that go to the placement: those whose category is not among the
  satisfied categories (\<^verbatim>\<open>satisfiedRequirements.includes(req.category)\<close>).
\<close>

definition remainingRequirements :: "Requirement list \<Rightarrow> CompletedCourse list \<Rightarrow> Requirement list" where
  "remainingRequirements allRequirements completed =
     (let satisfiedRequirements = checkSatisfiedRequirements allRequirements completed in
      filter (\<lambda>req. category req \<notin> set satisfiedRequirements) allRequirements)"

datatype JsError = TypeError

text \<open>
  \<^verbatim>\<open>generateGraduationPlan\<close>. The catalog is the parameter \<open>fetch\<close>. The function raises
  a \<^verbatim>\<open>TypeError\<close> where it calls a method of a value that is not there:
  \<^verbatim>\<open>semesterString.split\<close> in \<^verbatim>\<open>parseSemester\<close> for a term value that is not a string,
  \<^verbatim>\<open>majors.flatMap\<close>, \<^verbatim>\<open>minors.flatMap\<close> for \<^verbatim>\<open>null\<close>, and \<^verbatim>\<open>completedCourses.map\<close>.
\<close>

definition generateGraduationPlan ::
    "(string \<Rightarrow> FetchOutcome) \<Rightarrow> GeneratePlanRequest \<Rightarrow> JsError + GraduationPlan" where
  "generateGraduationPlan fetch request =
     (case startingSemester request of None \<Rightarrow> Inl TypeError | Some startingSemester' \<Rightarrow>
      case graduationTarget request of None \<Rightarrow> Inl TypeError | Some graduationTarget' \<Rightarrow>
      case majors request of None \<Rightarrow> Inl TypeError | Some majors' \<Rightarrow>
      case defaulted (minors request) of None \<Rightarrow> Inl TypeError | Some minors' \<Rightarrow>
      case completedCourses_field request of None \<Rightarrow> Inl TypeError | Some completed \<Rightarrow>
          (let startSemester = parseSemester startingSemester';
               targetSemester = parseSemester graduationTarget';
               availableSemesters = generateSemesterSequence startSemester targetSemester;
               allRequirements = concat (map requirements majors') @ concat (map requirements minors');
               remaining = remainingRequirements allRequirements completed;
               courseInfo = fetchCourseInformation fetch (collectRequiredCourses remaining);
               courseSequence =
                 planCourseSequence remaining courseInfo
                   (map course_id completed) availableSemesters
                   (maxCreditsPerSemester request);
               sems = map (buildSemesterPlan courseSequence) availableSemesters
           in Inr \<lparr>plan_majors = majors', plan_minors = minors',
                   semesters = filter (\<lambda>sem. sem_courses sem \<noteq> []) sems,
                   totalCredits = sum_list (map sem_totalCredits sems)
                                  + sum_list (map credits completed),
                   completionDate = graduationTarget',
                   warnings = generateWarnings sems (maxCreditsPerSemester request),
                   unmetRequirements = findUnmetRequirements allRequirements courseSequence\<rparr>))"

text \<open>
  The handler: 405 for another method than POST, 400 when \<^verbatim>\<open>majors\<close> is missing or empty,
  500 when the generator raises, 200 with the plan otherwise.
\<close>

datatype ApiResponse =
  MethodNotAllowed string
| BadRequest string
| ServerError string
| Success GraduationPlan

definition handler :: "(string \<Rightarrow> FetchOutcome) \<Rightarrow> string \<Rightarrow> GeneratePlanRequest \<Rightarrow> ApiResponse" where
  "handler fetch method requestData =
     (if method \<noteq> ''POST'' then MethodNotAllowed (''Method '' @ method @ '' not allowed'')
      else if majors requestData = None \<or> majors requestData = Some []
      then BadRequest ''At least one major is required''
      else (case generateGraduationPlan fetch requestData of
              Inr graduationPlan \<Rightarrow> Success graduationPlan
            | Inl e \<Rightarrow> ServerError ''Failed to generate graduation plan''))"

section \<open>Predicates for the statements and the proofs\<close>

text \<open>
  \<open>placements cap key completed cur ds\<close>: the entries \<open>ds\<close> can have been pushed one after
  the other inside the semester \<open>key\<close>, from the set \<open>completed\<close> and the running credits
  \<open>cur\<close>: each is new to the set, is pushed while the running credits are below the cap,
  and has its prerequisites in the set as it stands then.
\<close>

fun placements :: "int \<Rightarrow> string \<Rightarrow> string set \<Rightarrow> int \<Rightarrow> SequencedCourse list \<Rightarrow> bool" where
  "placements cap key completed cur [] = True"
| "placements cap key completed cur (d # ds) =
     (plannedSemester d = key \<and> course_id d \<notin> completed \<and> cur < cap
      \<and> set (prerequisites d) \<subseteq> completed
      \<and> placements cap key (insert (course_id d) completed) (cur + credits d) ds)"

text \<open>
  \<open>term_blocks cap keys completed ds\<close>: \<open>ds\<close> is one block of placements for each key, in
  the order of the keys, each block starting from zero credits.
\<close>

fun term_blocks :: "int \<Rightarrow> string list \<Rightarrow> string set \<Rightarrow> SequencedCourse list \<Rightarrow> bool" where
  "term_blocks cap [] completed ds = (ds = [])"
| "term_blocks cap (k # ks) completed ds =
     (\<exists>b rest. ds = b @ rest \<and> placements cap k completed 0 b
        \<and> term_blocks cap ks (completed \<union> course_id ` set b) rest)"

text \<open>
  \<open>listed_by reqs d\<close>: the entry \<open>d\<close> is credited to one requirement of \<open>reqs\<close> that lists
  its course.
\<close>

definition listed_by :: "Requirement list \<Rightarrow> SequencedCourse \<Rightarrow> bool" where
  "listed_by reqs d =
     (\<exists>req cs. req \<in> set reqs \<and> courses req = Some cs \<and> course_id d \<in> set cs
        \<and> satisfies d = [category req])"



text \<open>\<^verbatim>\<open>Number.isSafeInteger\<close>: the integers that a JavaScript number holds exactly.\<close>

definition safe_integer :: "int \<Rightarrow> bool" where
  "safe_integer n = (- 9007199254740991 \<le> n \<and> n \<le> 9007199254740991)"

text \<open>A parsed term whose year, when it is a number, is held exactly.\<close>

definition safe_term :: "SeasonYear \<Rightarrow> bool" where
  "safe_term t = (case year t of None \<Rightarrow> True | Some y \<Rightarrow> safe_integer y)"

text \<open>A term that comes before another in the cycle of the seasons, for numeric years.\<close>

definition term_precedes :: "SeasonYear \<Rightarrow> SeasonYear \<Rightarrow> bool" where
  "term_precedes a b =
     (case (year a, year b) of
        (Some ya, Some yb) \<Rightarrow>
          ya < yb \<or> (ya = yb \<and> seasonIndex (season a) < seasonIndex (season b))
      | _ \<Rightarrow> False)"

section \<open>A small catalog and requests for the examples\<close>

definition demoCatalog :: "string \<Rightarrow> FetchOutcome" where
  "demoCatalog courseId =
     (if courseId = ''MATH140''
      then Found \<lparr>api_name = Some ''Calculus I'', api_credits = Some ''4'', api_prereqs = None,
                  api_description = None\<rparr>
      else if courseId = ''MATH141''
      then Found \<lparr>api_name = Some ''Calculus II'', api_credits = Some ''4'',
                  api_prereqs = Some ''MATH140'', api_description = None\<rparr>
      else if courseId = ''CMSC131'' then FetchThrows
      else NotOk)"

definition demoProgram :: "Requirement list \<Rightarrow> Program" where
  "demoProgram reqs = \<lparr>code = ''MATH'', program_name = ''Mathematics'', requirements = reqs\<rparr>"

definition demoRequest :: "Requirement list \<Rightarrow> CompletedCourse list \<Rightarrow> string \<Rightarrow> string \<Rightarrow> int \<Rightarrow> GeneratePlanRequest" where
  "demoRequest reqs done start target cap =
     \<lparr>majors = Some [demoProgram reqs],
      minors = Missing, completedCourses_field = Some done, startingSemester = Some start,
      graduationTarget = Some target, maxCreditsPerSemester = cap,
      preferredCourseLoad = ''normal''\<rparr>"

definition calculusCore :: "Requirement list" where
  "calculusCore = [\<lparr>category = ''core'', courses = Some [''MATH140'', ''MATH141'']\<rparr>]"

definition demoInfo :: "string \<rightharpoonup> CourseInfo" where
  "demoInfo = fetchCourseInformation demoCatalog [''MATH140'', ''MATH141'', ''CMSC131'', ''XXXX101'']"

definition demoSemesters :: "SeasonYear list" where
  "demoSemesters = generateSemesterSequence (parseSemester ''Fall 2024'') (parseSemester ''Fall 2025'')"

definition math140 :: "string \<Rightarrow> PlannedCourse" where
  "math140 cat = \<lparr>course_id = ''MATH140'', credits = 4, name = ''Calculus I'', prerequisites = [],
     satisfies = [cat]\<rparr>"

definition math141 :: "string \<Rightarrow> PlannedCourse" where
  "math141 cat = \<lparr>course_id = ''MATH141'', credits = 4, name = ''Calculus II'',
     prerequisites = [''MATH140''], satisfies = [cat]\<rparr>"

definition calculusSequence :: "SequencedCourse list" where
  "calculusSequence =
     [PlannedCourse.extend (math140 ''core'') \<lparr>plannedSemester = ''fall 2024''\<rparr>,
      PlannedCourse.extend (math141 ''core'') \<lparr>plannedSemester = ''fall 2024''\<rparr>]"

text \<open>The request of the scenario: the calculus core, nothing completed, fall 2024 to fall 2025.\<close>

definition calculusRequest :: "int \<Rightarrow> GeneratePlanRequest" where
  "calculusRequest cap = demoRequest calculusCore [] ''Fall 2024'' ''Fall 2025'' cap"

text \<open>A core of one course, which the student has completed.\<close>

definition completedCoreRequest :: GeneratePlanRequest where
  "completedCoreRequest =
     demoRequest [\<lparr>category = ''core'', courses = Some [''MATH140'']\<rparr>]
       [\<lparr>course_id = ''MATH140'', credits = 4\<rparr>] ''Fall 2024'' ''Spring 2025'' 15"

text \<open>
  A course for which the catalog answers with an error status (\<^verbatim>\<open>XXXX101\<close>) and one
  for which the request itself fails (\<^verbatim>\<open>CMSC131\<close>).
\<close>

definition unknownCourseRequest :: GeneratePlanRequest where
  "unknownCourseRequest =
     demoRequest [\<lparr>category = ''core'', courses = Some [''XXXX101'', ''CMSC131'']\<rparr>]
       [] ''Fall 2024'' ''Spring 2025'' 15"








definition fall2024 :: "PlannedCourse list \<Rightarrow> int \<Rightarrow> SemesterPlan" where
  "fall2024 cs n =
     \<lparr>semester = Some ''fall'', sem_year = Some 2024, sem_courses = cs, sem_totalCredits = n\<rparr>"

definition emptyPlan :: "Requirement list \<Rightarrow> int \<Rightarrow> string \<Rightarrow> string list \<Rightarrow> GraduationPlan" where
  "emptyPlan reqs n target unmet =
     \<lparr>plan_majors = [demoProgram reqs], plan_minors = [], semesters = [], totalCredits = n,
      completionDate = target, warnings = [], unmetRequirements = unmet\<rparr>"

definition calculusPlan :: GraduationPlan where
  "calculusPlan =
     \<lparr>plan_majors = [demoProgram calculusCore], plan_minors = [],
      semesters = [fall2024 [math140 ''core'', math141 ''core''] 8],
      totalCredits = 8, completionDate = ''Fall 2025'',
      warnings = [''fall 2024: Under full-time status with 8 credits''],
      unmetRequirements = []\<rparr>"

definition noMajorsRequest :: GeneratePlanRequest where
  "noMajorsRequest = (calculusRequest 15)\<lparr>majors := None\<rparr>"

text \<open>A request without term values, as the home page of the repository sends it.\<close>

definition noTermsRequest :: GeneratePlanRequest where
  "noTermsRequest = (calculusRequest 15)\<lparr>startingSemester := None, graduationTarget := None\<rparr>"


section \<open>Properties of the semester sequencer\<close>

lemma seasonIndex_vals [simp]:
  "seasonIndex (Some ''spring'') = 0" "seasonIndex (Some ''summer'') = 1" "seasonIndex (Some ''fall'') = 2"
  by (simp_all add: seasonIndex_def seasons_def)

lemma at_seasons [simp]:
  "at seasons 0 = Some ''spring''" "at seasons 1 = Some ''summer''" "at seasons 2 = Some ''fall''"
  by (simp_all add: at_def seasons_def)

lemma length_seasons [simp]: "length seasons = 3" by (simp add: seasons_def)

lemma semesterLoop_stop:
  "\<not> (cy < ey \<or> (cy = ey \<and> ci \<le> ei)) \<Longrightarrow> semesterLoop ey ei cy ci = []"
  by (subst semesterLoop.simps) simp

lemma semesterLoop_step:
  "cy < ey \<or> (cy = ey \<and> ci \<le> ei) \<Longrightarrow> ci < 2 \<Longrightarrow>
   semesterLoop ey ei cy ci =
     \<lparr>season = at seasons ci, year = Some cy\<rparr> # semesterLoop ey ei cy (ci + 1)"
  by (subst semesterLoop.simps) simp

lemma semesterLoop_wrap:
  "cy < ey \<or> (cy = ey \<and> ci \<le> ei) \<Longrightarrow> 2 \<le> ci \<Longrightarrow>
   semesterLoop ey ei cy ci =
     \<lparr>season = at seasons ci, year = Some cy\<rparr> # semesterLoop ey ei (cy + 1) 0"
  by (subst semesterLoop.simps) simp

lemma next_term_seasons [simp]:
  "next_term \<lparr>season = Some ''spring'', year = y\<rparr> = \<lparr>season = Some ''summer'', year = y\<rparr>"
  "next_term \<lparr>season = Some ''summer'', year = y\<rparr> = \<lparr>season = Some ''fall'', year = y\<rparr>"
  "next_term \<lparr>season = Some ''fall'', year = Some n\<rparr> = \<lparr>season = Some ''spring'', year = Some (n + 1)\<rparr>"
  by (simp_all add: next_term_def)

lemma semesterLoop_walk:
  "0 \<le> ci \<Longrightarrow> ci \<le> 2 \<Longrightarrow> 0 \<le> ei \<Longrightarrow> ei \<le> 2 \<Longrightarrow>
   semesterLoop ey ei cy ci =
     cyclic_walk (nat (3 * (ey - cy) + (ei - ci) + 1)) \<lparr>season = at seasons ci, year = Some cy\<rparr>"
proof (induction ey ei cy ci rule: semesterLoop.induct)
  case (1 ey ei cy ci)
  show ?case
  proof (cases "cy < ey \<or> (cy = ey \<and> ci \<le> ei)")
    case False
    with "1.prems" have "nat (3 * (ey - cy) + (ei - ci) + 1) = 0" by auto
    with False show ?thesis by (simp add: semesterLoop_stop)
  next
    case True
    then obtain m where m: "nat (3 * (ey - cy) + (ei - ci) + 1) = Suc m"
      using "1.prems" by (cases "nat (3 * (ey - cy) + (ei - ci) + 1)") auto
    consider "ci = 0" | "ci = 1" | "ci = 2" using "1.prems" by linarith
    then show ?thesis
    proof cases
      case 1
      have "semesterLoop ey ei cy (ci + 1) = cyclic_walk (nat (3 * (ey - cy) + (ei - (ci + 1)) + 1)) \<lparr>season = at seasons (ci + 1), year = Some cy\<rparr>"
        using "1.IH"(2) True "1.prems" 1 by simp
      moreover have "nat (3 * (ey - cy) + (ei - (ci + 1)) + 1) = m" using m by linarith
      moreover have "semesterLoop ey ei cy ci = \<lparr>season = at seasons ci, year = Some cy\<rparr> # semesterLoop ey ei cy (ci + 1)"
        using True 1 by (intro semesterLoop_step) auto
      ultimately show ?thesis using 1 m by simp
    next
      case 2
      have "semesterLoop ey ei cy (ci + 1) = cyclic_walk (nat (3 * (ey - cy) + (ei - (ci + 1)) + 1)) \<lparr>season = at seasons (ci + 1), year = Some cy\<rparr>"
        using "1.IH"(2) True "1.prems" 2 by simp
      moreover have "nat (3 * (ey - cy) + (ei - (ci + 1)) + 1) = m" using m by linarith
      moreover have "semesterLoop ey ei cy ci = \<lparr>season = at seasons ci, year = Some cy\<rparr> # semesterLoop ey ei cy (ci + 1)"
        using True 2 by (intro semesterLoop_step) auto
      ultimately show ?thesis using 2 m by simp
    next
      case 3
      have "semesterLoop ey ei (cy + 1) 0 = cyclic_walk (nat (3 * (ey - (cy + 1)) + (ei - 0) + 1)) \<lparr>season = at seasons 0, year = Some (cy + 1)\<rparr>"
        using "1.IH"(1) True "1.prems" 3 by simp
      moreover have "nat (3 * (ey - (cy + 1)) + (ei - 0) + 1) = m" using m 3 by (simp add: algebra_simps)
      moreover have "semesterLoop ey ei cy ci = \<lparr>season = at seasons ci, year = Some cy\<rparr> # semesterLoop ey ei (cy + 1) 0"
        using True 3 by (intro semesterLoop_wrap) auto
      ultimately show ?thesis using 3 m by simp
    qed
  qed
qed

lemma semesterLoop_last:
  "0 \<le> ci \<Longrightarrow> ci \<le> 2 \<Longrightarrow> 0 \<le> ei \<Longrightarrow> ei \<le> 2 \<Longrightarrow> cy < ey \<or> (cy = ey \<and> ci \<le> ei) \<Longrightarrow>
   last (semesterLoop ey ei cy ci) = \<lparr>season = at seasons ei, year = Some ey\<rparr>"
proof (induction ey ei cy ci rule: semesterLoop.induct)
  case (1 ey ei cy ci)
  note go = "1.prems"(5)
  show ?case
  proof (cases "ci + 1 \<ge> 3")
    case True
    then have ci: "ci = 2" using "1.prems" by linarith
    have unf: "semesterLoop ey ei cy ci = \<lparr>season = at seasons ci, year = Some cy\<rparr> # semesterLoop ey ei (cy + 1) 0"
      using go ci by (intro semesterLoop_wrap) auto
    show ?thesis
    proof (cases "cy + 1 < ey \<or> (cy + 1 = ey \<and> 0 \<le> ei)")
      case True
      then have "last (semesterLoop ey ei (cy + 1) 0) = \<lparr>season = at seasons ei, year = Some ey\<rparr>"
        using "1.IH"(1) go ci "1.prems" by simp
      moreover have "semesterLoop ey ei (cy + 1) 0 \<noteq> []"
        using True by (simp add: semesterLoop_step)
      ultimately show ?thesis using unf by simp
    next
      case False
      with go ci "1.prems" have e: "cy = ey" "ei = 2" by auto
      have "semesterLoop ey ei (cy + 1) 0 = []"
        using e by (simp add: semesterLoop_stop)
      then show ?thesis using unf ci e by simp
    qed
  next
    case False
    then have ci: "ci < 2" by linarith
    have unf: "semesterLoop ey ei cy ci = \<lparr>season = at seasons ci, year = Some cy\<rparr> # semesterLoop ey ei cy (ci + 1)"
      using go ci by (intro semesterLoop_step) auto
    show ?thesis
    proof (cases "cy < ey \<or> (cy = ey \<and> ci + 1 \<le> ei)")
      case True
      then have "last (semesterLoop ey ei cy (ci + 1)) = \<lparr>season = at seasons ei, year = Some ey\<rparr>"
        using "1.IH"(2) go ci "1.prems" by simp
      moreover have "semesterLoop ey ei cy (ci + 1) \<noteq> []"
      proof (cases "ci + 1 < 2")
        case True
        with \<open>cy < ey \<or> (cy = ey \<and> ci + 1 \<le> ei)\<close> show ?thesis
          by (simp add: semesterLoop_step)
      next
        case False
        with \<open>cy < ey \<or> (cy = ey \<and> ci + 1 \<le> ei)\<close> show ?thesis
          by (simp add: semesterLoop_wrap)
      qed
      ultimately show ?thesis using unf by simp
    next
      case False
      with go have e: "cy = ey" "ci = ei" by auto
      have "semesterLoop ey ei cy (ci + 1) = []"
        using e by (simp add: semesterLoop_stop)
      then show ?thesis using unf e by simp
    qed
  qed
qed

lemma seasonIndex_valid:
  "s \<in> set seasons \<Longrightarrow> 0 \<le> seasonIndex (Some s) \<and> seasonIndex (Some s) \<le> 2 \<and> at seasons (seasonIndex (Some s)) = Some s"
  by (auto simp: seasons_def seasonIndex_def at_def)

text \<open>
  C6. For a start and a target term with valid seasons and the start not after the target,
  the sequencer returns exactly the cyclic walk spring, summer, fall from the start term:
  as many terms as there are steps from start to target, both ends included, the first
  being the start term and the last the target term. For fall 2024 to spring 2026 it
  returns the five terms fall 2024, spring 2025, summer 2025, fall 2025, spring 2026.
\<close>

theorem sequencer_cyclic_walk:
  assumes "s1 \<in> set seasons" and "s2 \<in> set seasons"
    and "y1 < y2 \<or> (y1 = y2 \<and> seasonIndex (Some s1) \<le> seasonIndex (Some s2))"
  shows "generateSemesterSequence \<lparr>season = Some s1, year = Some y1\<rparr> \<lparr>season = Some s2, year = Some y2\<rparr>
           = cyclic_walk (nat (3 * (y2 - y1) + (seasonIndex (Some s2) - seasonIndex (Some s1))) + 1)
               \<lparr>season = Some s1, year = Some y1\<rparr>
       \<and> last (generateSemesterSequence \<lparr>season = Some s1, year = Some y1\<rparr>
                 \<lparr>season = Some s2, year = Some y2\<rparr>) = \<lparr>season = Some s2, year = Some y2\<rparr>"
proof -
  note v1 = seasonIndex_valid [OF assms(1)] and v2 = seasonIndex_valid [OF assms(2)]
  have n: "nat (3 * (y2 - y1) + (seasonIndex (Some s2) - seasonIndex (Some s1)) + 1)
             = nat (3 * (y2 - y1) + (seasonIndex (Some s2) - seasonIndex (Some s1))) + 1"
    using assms(3) v1 v2 by auto
  show ?thesis
    using semesterLoop_walk [of "seasonIndex (Some s1)" "seasonIndex (Some s2)" y2 y1]
      semesterLoop_last [of "seasonIndex (Some s1)" "seasonIndex (Some s2)" y1 y2] v1 v2 assms(3) n
    by (simp add: generateSemesterSequence_def)
qed

theorem sequencer_fall2024_spring2026:
  "generateSemesterSequence \<lparr>season = Some ''fall'', year = Some 2024\<rparr>
       \<lparr>season = Some ''spring'', year = Some 2026\<rparr> =
     [\<lparr>season = Some ''fall'', year = Some 2024\<rparr>, \<lparr>season = Some ''spring'', year = Some 2025\<rparr>,
      \<lparr>season = Some ''summer'', year = Some 2025\<rparr>, \<lparr>season = Some ''fall'', year = Some 2025\<rparr>,
      \<lparr>season = Some ''spring'', year = Some 2026\<rparr>]"
  using sequencer_cyclic_walk [of "''fall''" "''spring''" 2024 2026]
  by (simp add: seasons_def eval_nat_numeral)

section \<open>The keys of the generated semesters\<close>

text \<open>
  The decimal digits of a number determine it, and neither they nor the names of the
  seasons contain a space: the semesters that the sequencer generates have distinct keys.
\<close>

lemma digit_char_of_char: "0 \<le> d \<Longrightarrow> d < 10 \<Longrightarrow> (of_char (digit_char d) :: int) = 48 + d"
  by (simp add: digit_char_def)

lemma show_nat_digits: "0 \<le> n \<Longrightarrow> c \<in> set (show_nat n) \<Longrightarrow> is_digit c"
proof (induction n arbitrary: c rule: show_nat.induct)
  case (1 n)
  show ?case
  proof (cases "n < 10")
    case True
    with "1.prems" have "c = digit_char n" by (subst (asm) show_nat.simps) simp
    with True "1.prems"(1) show ?thesis by (simp add: is_digit_def digit_char_of_char)
  next
    case False
    with "1.prems" have "c \<in> set (show_nat (n div 10)) \<or> c = digit_char (n mod 10)"
      by (subst (asm) show_nat.simps) auto
    then show ?thesis
    proof
      assume "c \<in> set (show_nat (n div 10))"
      with "1.IH" False "1.prems"(1) show ?thesis by simp
    next
      assume "c = digit_char (n mod 10)"
      then show ?thesis by (simp add: is_digit_def digit_char_of_char)
    qed
  qed
qed

lemma read_show_nat:
  "0 \<le> n \<Longrightarrow> foldl (\<lambda>a c. a * 10 + ((of_char c :: int) - 48)) 0 (show_nat n) = n"
proof (induction n rule: show_nat.induct)
  case (1 n)
  show ?case
  proof (cases "n < 10")
    case True
    with "1.prems" show ?thesis by (subst show_nat.simps) (simp add: digit_char_of_char)
  next
    case False
    with "1.IH" "1.prems" show ?thesis
      by (subst show_nat.simps) (simp add: digit_char_of_char)
  qed
qed

lemma show_nat_inj: "0 \<le> a \<Longrightarrow> 0 \<le> b \<Longrightarrow> show_nat a = show_nat b \<Longrightarrow> a = b"
  by (metis read_show_nat)

lemma show_int_inj: "show_int i = show_int j \<Longrightarrow> i = j"
proof -
  assume e: "show_int i = show_int j"
  have nd: "\<not> is_digit CHR ''-''" by (simp add: is_digit_def)
  have hd_digit: "show_nat n \<noteq> CHR ''-'' # s" if "0 \<le> n" for n s
    using show_nat_digits [OF that, of "CHR ''-''"] nd by (metis list.set_intros(1))
  show ?thesis
  proof (cases "i < 0"; cases "j < 0")
    assume "i < 0" "j < 0"
    with e have "show_nat (- i) = show_nat (- j)" by (simp add: show_int_def)
    with \<open>i < 0\<close> \<open>j < 0\<close> have "- i = - j" by (intro show_nat_inj) auto
    then show ?thesis by simp
  next
    assume "i < 0" "\<not> j < 0"
    with e hd_digit [of j "show_nat (- i)"] show ?thesis by (simp add: show_int_def)
  next
    assume "\<not> i < 0" "j < 0"
    with e hd_digit [of i "show_nat (- j)"] show ?thesis by (simp add: show_int_def)
  next
    assume "\<not> i < 0" "\<not> j < 0"
    with e have "show_nat i = show_nat j" by (simp add: show_int_def)
    with \<open>\<not> i < 0\<close> \<open>\<not> j < 0\<close> show ?thesis by (intro show_nat_inj) auto
  qed
qed

lemma show_int_no_space: "CHR '' '' \<notin> set (show_int i)"
proof -
  have "\<not> is_digit CHR '' ''" by (simp add: is_digit_def)
  then have "CHR '' '' \<notin> set (show_nat n)" if "0 \<le> n" for n using show_nat_digits that by blast
  then show ?thesis by (simp add: show_int_def)
qed

lemma at_seasons_cases:
  "- 1 \<le> i \<Longrightarrow> i \<le> 2 \<Longrightarrow>
   (i = - 1 \<and> at seasons i = None) \<or> (i = 0 \<and> at seasons i = Some ''spring'')
   \<or> (i = 1 \<and> at seasons i = Some ''summer'') \<or> (i = 2 \<and> at seasons i = Some ''fall'')"
proof -
  assume "- 1 \<le> i" "i \<le> 2"
  then consider "i = - 1" | "i = 0" | "i = 1" | "i = 2" by linarith
  then show ?thesis by cases (simp_all add: at_def seasons_def)
qed

lemma key_split:
  "CHR '' '' \<notin> set a \<Longrightarrow> CHR '' '' \<notin> set b \<Longrightarrow> a @ CHR '' '' # x = b @ CHR '' '' # y \<Longrightarrow> a = b \<and> x = y"
proof (induction a arbitrary: b)
  case Nil
  then show ?case by (cases b) auto
next
  case (Cons c a)
  then show ?case by (cases b) auto
qed

lemma semesterKey_inj:
  assumes "- 1 \<le> i" "i \<le> 2" "- 1 \<le> j" "j \<le> 2"
    and "semesterKey \<lparr>season = at seasons i, year = Some y\<rparr> = semesterKey \<lparr>season = at seasons j, year = Some z\<rparr>"
  shows "i = j \<and> y = z"
proof -
  have ns: "CHR '' '' \<notin> set (show_text (at seasons k))" if "- 1 \<le> k" "k \<le> 2" for k
    using at_seasons_cases [OF that] by (auto simp: show_text_def)
  from assms(5) have "show_text (at seasons i) @ CHR '' '' # show_int y
                   = show_text (at seasons j) @ CHR '' '' # show_int z"
    by (simp add: semesterKey_def show_number_def)
  from key_split [OF ns [OF assms(1,2)] ns [OF assms(3,4)] this]
  have t: "show_text (at seasons i) = show_text (at seasons j)" and "show_int y = show_int z" by auto
  then have "y = z" using show_int_inj by blast
  moreover have "i = j"
    using at_seasons_cases [OF assms(1,2)] at_seasons_cases [OF assms(3,4)] t
    by (auto simp: show_text_def)
  ultimately show ?thesis by simp
qed

lemma semesterLoop_elems:
  "- 1 \<le> ci \<Longrightarrow> ci \<le> 2 \<Longrightarrow> t \<in> set (semesterLoop ey ei cy ci) \<Longrightarrow>
     \<exists>y i. t = \<lparr>season = at seasons i, year = Some y\<rparr> \<and> - 1 \<le> i \<and> i \<le> 2
           \<and> (cy < y \<or> (y = cy \<and> ci \<le> i))"
proof (induction ey ei cy ci arbitrary: t rule: semesterLoop.induct)
  case (1 ey ei cy ci)
  have go: "cy < ey \<or> (cy = ey \<and> ci \<le> ei)"
  proof (rule ccontr)
    assume "\<not> (cy < ey \<or> (cy = ey \<and> ci \<le> ei))"
    then have "semesterLoop ey ei cy ci = []" by (rule semesterLoop_stop)
    with "1.prems"(3) show False by simp
  qed
  show ?case
  proof (cases "ci < 2")
    case True
    from semesterLoop_step [OF go True] "1.prems"(3)
    have "t = \<lparr>season = at seasons ci, year = Some cy\<rparr> \<or> t \<in> set (semesterLoop ey ei cy (ci + 1))"
      by auto
    then show ?thesis
    proof
      assume "t = \<lparr>season = at seasons ci, year = Some cy\<rparr>"
      with "1.prems" show ?thesis by blast
    next
      assume "t \<in> set (semesterLoop ey ei cy (ci + 1))"
      with "1.IH"(2) [of t] go True "1.prems"(1) obtain y i where
        "t = \<lparr>season = at seasons i, year = Some y\<rparr>" "- 1 \<le> i" "i \<le> 2"
        "cy < y \<or> (y = cy \<and> ci + 1 \<le> i)" by auto
      then show ?thesis by (intro exI [of _ y] exI [of _ i]) auto
    qed
  next
    case False
    then have ci: "2 \<le> ci" by simp
    from semesterLoop_wrap [OF go ci] "1.prems"(3)
    have "t = \<lparr>season = at seasons ci, year = Some cy\<rparr> \<or> t \<in> set (semesterLoop ey ei (cy + 1) 0)"
      by auto
    then show ?thesis
    proof
      assume "t = \<lparr>season = at seasons ci, year = Some cy\<rparr>"
      with "1.prems" show ?thesis by blast
    next
      assume "t \<in> set (semesterLoop ey ei (cy + 1) 0)"
      with "1.IH"(1) [of t] go ci obtain y i where
        "t = \<lparr>season = at seasons i, year = Some y\<rparr>" "- 1 \<le> i" "i \<le> 2"
        "cy + 1 < y \<or> (y = cy + 1 \<and> 0 \<le> i)" by auto
      then show ?thesis by (intro exI [of _ y] exI [of _ i]) auto
    qed
  qed
qed

lemma semesterLoop_distinct_keys:
  "- 1 \<le> ci \<Longrightarrow> ci \<le> 2 \<Longrightarrow> distinct (map semesterKey (semesterLoop ey ei cy ci))"
proof (induction ey ei cy ci rule: semesterLoop.induct)
  case (1 ey ei cy ci)
  show ?case
  proof (cases "cy < ey \<or> (cy = ey \<and> ci \<le> ei)")
    case False
    then show ?thesis by (simp add: semesterLoop_stop)
  next
    case go: True
    let ?h = "\<lparr>season = at seasons ci, year = Some cy\<rparr>"
    show ?thesis
    proof (cases "ci < 2")
      case True
      have fresh: "semesterKey ?h \<noteq> semesterKey t" if "t \<in> set (semesterLoop ey ei cy (ci + 1))" for t
      proof -
        from semesterLoop_elems [OF _ _ that] "1.prems" True obtain y i where
          t: "t = \<lparr>season = at seasons i, year = Some y\<rparr>" "- 1 \<le> i" "i \<le> 2"
          "cy < y \<or> (y = cy \<and> ci + 1 \<le> i)" by auto
        show ?thesis
          using semesterKey_inj [OF "1.prems" t(2,3), of cy y] t(1,4) by auto
      qed
      have "distinct (map semesterKey (semesterLoop ey ei cy (ci + 1)))"
        using "1.IH"(2) go True "1.prems" by simp
      with fresh show ?thesis
        by (subst semesterLoop_step [OF go True]) auto
    next
      case False
      then have ci: "2 \<le> ci" by simp
      have fresh: "semesterKey ?h \<noteq> semesterKey t" if "t \<in> set (semesterLoop ey ei (cy + 1) 0)" for t
      proof -
        from semesterLoop_elems [OF _ _ that] obtain y i where
          t: "t = \<lparr>season = at seasons i, year = Some y\<rparr>" "- 1 \<le> i" "i \<le> 2"
          "cy + 1 < y \<or> (y = cy + 1 \<and> 0 \<le> i)" by auto
        show ?thesis
          using semesterKey_inj [OF "1.prems" t(2,3), of cy y] t(1,4) by auto
      qed
      have "distinct (map semesterKey (semesterLoop ey ei (cy + 1) 0))"
        using "1.IH"(1) go ci by simp
      with fresh show ?thesis
        by (subst semesterLoop_wrap [OF go ci]) auto
    qed
  qed
qed

lemma seasonIndex_range: "- 1 \<le> seasonIndex s \<and> seasonIndex s \<le> 2"
  by (cases s) (auto simp: seasonIndex_def seasons_def Let_def)

lemma generateSemesterSequence_distinct_keys:
  "distinct (map semesterKey (generateSemesterSequence start target))"
  using seasonIndex_range [of "season start"]
  by (auto simp: generateSemesterSequence_def semesterLoop_distinct_keys split: option.splits)

section \<open>The structure of the course sequence\<close>

text \<open>
  Each loop of the placement only appends to \<^verbatim>\<open>plannedCourses\<close>; what it appends is a
  block of placements of the current semester, and the course sequence is one block for
  each available semester.
\<close>

lemma planCourses_prefix:
  "planCourses i m k c cids (pl, S, cur) =
     (case planCourses i m k c cids ([], S, cur) of (new, S', cur') \<Rightarrow> (pl @ new, S', cur'))"
proof (induction cids arbitrary: pl S cur)
  case Nil
  show ?case by simp
next
  case (Cons cid rest)
  show ?case
  proof (cases "cid \<notin> S \<and> cur < m \<and> (\<exists>course. i cid = Some course \<and> list_all (\<lambda>p. p \<in> S) (prerequisites course))")
    case False
    then show ?thesis using Cons.IH [of pl S cur]
      by (auto split: option.splits)
  next
    case True
    then obtain course where c: "i cid = Some course" "list_all (\<lambda>p. p \<in> S) (prerequisites course)"
      by blast
    let ?e = "\<lparr>course_id = cid, credits = credits course, name = name course,
                prerequisites = prerequisites course, satisfies = [c], plannedSemester = k\<rparr>"
    show ?thesis
      using True c Cons.IH [of "pl @ [?e]" "insert cid S" "cur + credits course"]
        Cons.IH [of "[?e]" "insert cid S" "cur + credits course"]
      by (auto split: prod.splits)
  qed
qed

lemma placements_append:
  "placements cap key S cur (a @ b) =
     (placements cap key S cur a \<and>
      placements cap key (S \<union> course_id ` set a) (cur + sum_list (map credits a)) b)"
  by (induction a arbitrary: S cur) (auto simp: add.assoc insert_commute Un_commute)

lemma planCourses_block:
  "planCourses i m k c cids ([], S, cur) = (new, S', cur') \<Longrightarrow>
     S' = S \<union> course_id ` set new \<and> cur' = cur + sum_list (map credits new)
     \<and> placements m k S cur new
     \<and> (\<forall>d\<in>set new. satisfies d = [c] \<and> course_id d \<in> set cids \<and> i (course_id d) \<noteq> None)"
proof (induction cids arbitrary: S cur new S' cur')
  case Nil
  then show ?case by simp
next
  case (Cons cid rest)
  show ?case
  proof (cases "cid \<notin> S \<and> cur < m \<and> (\<exists>course. i cid = Some course \<and> list_all (\<lambda>p. p \<in> S) (prerequisites course))")
    case False
    show ?thesis
    proof (cases "cid \<notin> S \<and> \<not> cur < m")
      case True
      with Cons.prems show ?thesis by auto
    next
      case brk: False
      with False Cons.prems have "planCourses i m k c rest ([], S, cur) = (new, S', cur')"
        by (auto split: option.splits if_splits)
      from Cons.IH [OF this] show ?thesis by auto
    qed
  next
    case True
    then obtain course where c: "i cid = Some course" "list_all (\<lambda>p. p \<in> S) (prerequisites course)"
      by blast
    let ?e = "\<lparr>course_id = cid, credits = credits course, name = name course,
                prerequisites = prerequisites course, satisfies = [c], plannedSemester = k\<rparr>"
    obtain new1 S1 cur1 where r: "planCourses i m k c rest ([], insert cid S, cur + credits course) = (new1, S1, cur1)"
      by (cases "planCourses i m k c rest ([], insert cid S, cur + credits course)") auto
    have "planCourses i m k c (cid # rest) ([], S, cur) = ([?e] @ new1, S1, cur1)"
      using True c r planCourses_prefix [of i m k c rest "[?e]" "insert cid S" "cur + credits course"]
      by simp
    with Cons.prems have eq: "new = ?e # new1" "S' = S1" "cur' = cur1" by auto
    from Cons.IH [OF r] True c eq show ?thesis
      by (auto simp: list_all_iff)
  qed
qed


lemma planRequirements_prefix:
  "planRequirements i m k reqs (pl, S, cur) =
     (case planRequirements i m k reqs ([], S, cur) of (new, S', cur') \<Rightarrow> (pl @ new, S', cur'))"
proof (induction reqs arbitrary: pl S cur)
  case Nil
  show ?case by simp
next
  case (Cons req reqs)
  show ?case
  proof (cases "courses req")
    case None
    then show ?thesis using Cons.IH [of pl S cur] by simp
  next
    case (Some cs)
    obtain n1 S1 c1 where r: "planCourses i m k (category req) cs ([], S, cur) = (n1, S1, c1)"
      by (cases "planCourses i m k (category req) cs ([], S, cur)") auto
    then have "planCourses i m k (category req) cs (pl, S, cur) = (pl @ n1, S1, c1)"
      using planCourses_prefix [of i m k "category req" cs pl S cur] by simp
    then show ?thesis
      using Some r Cons.IH [of "pl @ n1" S1 c1] Cons.IH [of n1 S1 c1]
      by (auto split: prod.splits)
  qed
qed

lemma listed_by_Cons: "listed_by reqs d \<Longrightarrow> listed_by (req # reqs) d"
  by (auto simp: listed_by_def)

lemma planRequirements_block:
  "planRequirements i m k reqs ([], S, cur) = (new, S', cur') \<Longrightarrow>
     S' = S \<union> course_id ` set new \<and> cur' = cur + sum_list (map credits new)
     \<and> placements m k S cur new
     \<and> (\<forall>d\<in>set new. listed_by reqs d \<and> i (course_id d) \<noteq> None)"
proof (induction reqs arbitrary: S cur new S' cur')
  case Nil
  then show ?case by simp
next
  case (Cons req reqs)
  show ?case
  proof (cases "courses req")
    case None
    with Cons.prems have "planRequirements i m k reqs ([], S, cur) = (new, S', cur')" by simp
    from Cons.IH [OF this] show ?thesis by (auto intro: listed_by_Cons)
  next
    case (Some cs)
    obtain n1 S1 c1 where r1: "planCourses i m k (category req) cs ([], S, cur) = (n1, S1, c1)"
      by (cases "planCourses i m k (category req) cs ([], S, cur)") auto
    obtain n2 S2 c2 where r2: "planRequirements i m k reqs ([], S1, c1) = (n2, S2, c2)"
      by (cases "planRequirements i m k reqs ([], S1, c1)") auto
    have "planRequirements i m k (req # reqs) ([], S, cur) = (n1 @ n2, S2, c2)"
      using Some r1 r2 planRequirements_prefix [of i m k reqs n1 S1 c1] by simp
    with Cons.prems have eq: "new = n1 @ n2" "S' = S2" "cur' = c2" by auto
    note b1 = planCourses_block [OF r1] and b2 = Cons.IH [OF r2]
    have l1: "\<forall>d\<in>set n1. listed_by (req # reqs) d"
      using b1 Some by (auto simp: listed_by_def)
    show ?thesis
      using b1 b2 l1 eq by (auto simp: placements_append image_Un Un_assoc intro: listed_by_Cons)
  qed
qed

lemma planSemesters_prefix:
  "planSemesters reqs i m sems (pl, S) =
     (case planSemesters reqs i m sems ([], S) of (new, S') \<Rightarrow> (pl @ new, S'))"
proof (induction sems arbitrary: pl S)
  case Nil
  show ?case by simp
next
  case (Cons sem sems)
  obtain n1 S1 c1 where r: "planRequirements i m (semesterKey sem) reqs ([], S, 0) = (n1, S1, c1)"
    by (cases "planRequirements i m (semesterKey sem) reqs ([], S, 0)") auto
  then have "planRequirements i m (semesterKey sem) reqs (pl, S, 0) = (pl @ n1, S1, c1)"
    using planRequirements_prefix [of i m "semesterKey sem" reqs pl S 0] by simp
  then show ?case
    using r Cons.IH [of "pl @ n1" S1] Cons.IH [of n1 S1]
    by (auto split: prod.splits)
qed

lemma planSemesters_blocks:
  "planSemesters reqs i m sems ([], S) = (new, S') \<Longrightarrow>
     S' = S \<union> course_id ` set new \<and> term_blocks m (map semesterKey sems) S new
     \<and> (\<forall>d\<in>set new. listed_by reqs d \<and> i (course_id d) \<noteq> None)"
proof (induction sems arbitrary: S new S')
  case Nil
  then show ?case by simp
next
  case (Cons sem sems)
  obtain n1 S1 c1 where r1: "planRequirements i m (semesterKey sem) reqs ([], S, 0) = (n1, S1, c1)"
    by (cases "planRequirements i m (semesterKey sem) reqs ([], S, 0)") auto
  obtain n2 S2 where r2: "planSemesters reqs i m sems ([], S1) = (n2, S2)"
    by (cases "planSemesters reqs i m sems ([], S1)") auto
  have "planSemesters reqs i m (sem # sems) ([], S) = (n1 @ n2, S2)"
    using r1 r2 planSemesters_prefix [of reqs i m sems n1 S1] by simp
  with Cons.prems have eq: "new = n1 @ n2" "S' = S2" by auto
  note b1 = planRequirements_block [OF r1] and b2 = Cons.IH [OF r2]
  have "term_blocks m (map semesterKey (sem # sems)) S (n1 @ n2)"
    using b1 b2 by auto
  then show ?case
    using b1 b2 eq by (auto simp: image_Un Un_assoc)
qed

lemma planCourseSequence_blocks:
  "term_blocks cap (map semesterKey sems) (set completed) (planCourseSequence reqs info completed sems cap)
   \<and> (\<forall>d\<in>set (planCourseSequence reqs info completed sems cap). listed_by reqs d \<and> info (course_id d) \<noteq> None)"
proof -
  obtain new S' where r: "planSemesters reqs info cap sems ([], set completed) = (new, S')"
    by (cases "planSemesters reqs info cap sems ([], set completed)") auto
  from planSemesters_blocks [OF r] r show ?thesis
    by (simp add: planCourseSequence_def)
qed

subsection \<open>What a sequence of blocks satisfies\<close>

lemma placements_nth:
  "placements cap key S cur b \<Longrightarrow> n < length b \<Longrightarrow>
     plannedSemester (b ! n) = key
     \<and> course_id (b ! n) \<notin> S \<union> course_id ` set (take n b)
     \<and> set (prerequisites (b ! n)) \<subseteq> S \<union> course_id ` set (take n b)
     \<and> cur + sum_list (map credits (take n b)) < cap"
proof (induction b arbitrary: S cur n)
  case Nil
  then show ?case by simp
next
  case (Cons d ds)
  show ?case
  proof (cases n)
    case 0
    with Cons.prems show ?thesis by simp
  next
    case (Suc n')
    with Cons.prems have "placements cap key (insert (course_id d) S) (cur + credits d) ds" "n' < length ds"
      by auto
    from Cons.IH [OF this] Suc show ?thesis by (auto simp: add.assoc)
  qed
qed

lemma placements_keys: "placements cap key S cur b \<Longrightarrow> d \<in> set b \<Longrightarrow> plannedSemester d = key"
  by (induction b arbitrary: S cur) auto

lemma placements_distinct:
  "placements cap key S cur b \<Longrightarrow> distinct (map course_id b) \<and> course_id ` set b \<inter> S = {}"
  by (induction b arbitrary: S cur) auto

lemma term_blocks_keys:
  "term_blocks cap ks S ds \<Longrightarrow> d \<in> set ds \<Longrightarrow> plannedSemester d \<in> set ks"
proof (induction ks arbitrary: S ds)
  case Nil
  then show ?case by simp
next
  case (Cons k ks)
  then obtain b rest where s: "ds = b @ rest" "placements cap k S 0 b"
    "term_blocks cap ks (S \<union> course_id ` set b) rest" by auto
  show ?case
  proof (cases "d \<in> set b")
    case True
    with s placements_keys show ?thesis by auto
  next
    case False
    with s Cons.prems have "d \<in> set rest" by auto
    with Cons.IH [OF s(3)] show ?thesis by auto
  qed
qed

lemma term_blocks_distinct:
  "term_blocks cap ks S ds \<Longrightarrow> distinct (map course_id ds) \<and> course_id ` set ds \<inter> S = {}"
proof (induction ks arbitrary: S ds)
  case Nil
  then show ?case by simp
next
  case (Cons k ks)
  then obtain b rest where s: "ds = b @ rest" "placements cap k S 0 b"
    "term_blocks cap ks (S \<union> course_id ` set b) rest" by auto
  from placements_distinct [OF s(2)] Cons.IH [OF s(3)] s(1) show ?case
    by auto
qed

lemma term_blocks_prereqs:
  "term_blocks cap ks S ds \<Longrightarrow> n < length ds \<Longrightarrow>
     set (prerequisites (ds ! n)) \<subseteq> S \<union> course_id ` set (take n ds)"
proof (induction ks arbitrary: S ds n)
  case Nil
  then show ?case by simp
next
  case (Cons k ks)
  then obtain b rest where s: "ds = b @ rest" "placements cap k S 0 b"
    "term_blocks cap ks (S \<union> course_id ` set b) rest" by auto
  show ?case
  proof (cases "n < length b")
    case True
    from placements_nth [OF s(2) True] s(1) True show ?thesis
      by (simp add: nth_append)
  next
    case False
    then have "n - length b < length rest" using Cons.prems(2) s(1) by auto
    from Cons.IH [OF s(3) this] s(1) False show ?thesis
      by (auto simp: nth_append image_Un)
  qed
qed

lemma term_blocks_credits:
  "distinct ks \<Longrightarrow> term_blocks cap ks S ds \<Longrightarrow> n < length ds \<Longrightarrow>
     sum_list (map credits (filter (\<lambda>d. plannedSemester d = plannedSemester (ds ! n)) (take n ds))) < cap"
proof (induction ks arbitrary: S ds n)
  case Nil
  then show ?case by simp
next
  case (Cons k ks)
  then obtain b rest where s: "ds = b @ rest" "placements cap k S 0 b"
    "term_blocks cap ks (S \<union> course_id ` set b) rest" by auto
  have kb: "\<forall>d\<in>set b. plannedSemester d = k" using placements_keys [OF s(2)] by blast
  show ?case
  proof (cases "n < length b")
    case True
    have "filter (\<lambda>d. plannedSemester d = k) (take n b) = take n b"
      using kb by (auto simp: filter_id_conv dest: in_set_takeD)
    moreover have "plannedSemester (ds ! n) = k" using True s(1) kb by (simp add: nth_append)
    ultimately show ?thesis
      using placements_nth [OF s(2) True] s(1) True by simp
  next
    case False
    then have n': "n - length b < length rest" using Cons.prems(3) s(1) by auto
    have "plannedSemester (rest ! (n - length b)) \<in> set ks"
      using term_blocks_keys [OF s(3)] n' by auto
    then have "plannedSemester (rest ! (n - length b)) \<noteq> k" using Cons.prems(1) by auto
    then have "filter (\<lambda>d. plannedSemester d = plannedSemester (rest ! (n - length b))) b = []"
      using kb by (auto simp: filter_empty_conv)
    moreover have "distinct ks" using Cons.prems(1) by simp
    ultimately show ?thesis
      using Cons.IH [OF _ s(3) n'] s(1) False by (simp add: nth_append)
  qed
qed

lemma term_blocks_order:
  "term_blocks cap ks S ds \<Longrightarrow> n < length ds \<Longrightarrow> j < n \<Longrightarrow>
     \<exists>a b. a \<le> b \<and> b < length ks \<and> plannedSemester (ds ! j) = ks ! a \<and> plannedSemester (ds ! n) = ks ! b"
proof (induction ks arbitrary: S ds n j)
  case Nil
  then show ?case by simp
next
  case (Cons k ks)
  then obtain b rest where s: "ds = b @ rest" "placements cap k S 0 b"
    "term_blocks cap ks (S \<union> course_id ` set b) rest" by auto
  have kb: "\<forall>d\<in>set b. plannedSemester d = k" using placements_keys [OF s(2)] by blast
  show ?case
  proof (cases "n < length b")
    case True
    then have "plannedSemester (ds ! j) = k" "plannedSemester (ds ! n) = k"
      using kb s(1) Cons.prems(3) by (auto simp: nth_append)
    then show ?thesis by (intro exI [of _ 0]) auto
  next
    case False
    then have n': "n - length b < length rest" using Cons.prems(2) s(1) by auto
    show ?thesis
    proof (cases "j < length b")
      case True
      then have 1: "plannedSemester (ds ! j) = (k # ks) ! 0" using kb s(1) by (auto simp: nth_append)
      have "plannedSemester (rest ! (n - length b)) \<in> set ks"
        using term_blocks_keys [OF s(3)] n' by auto
      then obtain q where "q < length ks" "plannedSemester (rest ! (n - length b)) = ks ! q"
        by (auto simp: in_set_conv_nth)
      then have "Suc q < length (k # ks)" "plannedSemester (ds ! n) = (k # ks) ! Suc q"
        using s(1) False by (auto simp: nth_append)
      with 1 show ?thesis by (intro exI [of _ 0] exI [of _ "Suc q"]) auto
    next
      case jf: False
      then have "j - length b < n - length b" using Cons.prems(3) by auto
      from Cons.IH [OF s(3) n' this] obtain p q where
        "p \<le> q" "q < length ks" "plannedSemester (rest ! (j - length b)) = ks ! p"
        "plannedSemester (rest ! (n - length b)) = ks ! q" by blast
      then show ?thesis
        using s(1) False jf by (intro exI [of _ "Suc p"] exI [of _ "Suc q"]) (auto simp: nth_append)
    qed
  qed
qed

section \<open>Which category a course is credited to\<close>



lemma planCourses_capped:
  "m \<le> cur \<Longrightarrow> planCourses i m k c cids (pl, S, cur) = (pl, S, cur)"
  by (induction cids) auto

lemma planRequirements_capped:
  "m \<le> cur \<Longrightarrow> planRequirements i m k reqs (pl, S, cur) = (pl, S, cur)"
  by (induction reqs) (auto simp: planCourses_capped split: option.splits)









section \<open>What a returned plan is made of\<close>

lemma generateGraduationPlan_Inr:
  assumes "generateGraduationPlan fetch request = Inr plan"
  obtains s t avail rs ps where
    "startingSemester request = Some s" "graduationTarget request = Some t"
    "majors request = Some (plan_majors plan)" "defaulted (minors request) = Some (plan_minors plan)"
    "completedCourses_field request = Some (completedCourses request)"
    "avail = generateSemesterSequence (parseSemester s) (parseSemester t)"
    "rs = remainingRequirements
            (concat (map requirements (plan_majors plan)) @ concat (map requirements (plan_minors plan)))
            (completedCourses request)"
    "ps = planCourseSequence rs (fetchCourseInformation fetch (collectRequiredCourses rs))
            (map course_id (completedCourses request)) avail (maxCreditsPerSemester request)"
    "semesters plan = filter (\<lambda>sem. sem_courses sem \<noteq> []) (map (buildSemesterPlan ps) avail)"
    "totalCredits plan = sum_list (map sem_totalCredits (map (buildSemesterPlan ps) avail))
                          + sum_list (map credits (completedCourses request))"
proof -
  from assms obtain s t ms mins cs where
    f: "startingSemester request = Some s" "graduationTarget request = Some t"
       "majors request = Some ms" "defaulted (minors request) = Some mins"
       "completedCourses_field request = Some cs"
    by (auto simp: generateGraduationPlan_def split: option.splits)
  then have c: "completedCourses request = cs" by (simp add: completedCourses_def)
  from assms f have p: "plan_majors plan = ms" "plan_minors plan = mins"
    by (auto simp: generateGraduationPlan_def Let_def)
  show thesis
    using assms f
    by (intro that [of s t]) (auto simp: c p generateGraduationPlan_def Let_def)
qed

section \<open>The examples, evaluated\<close>

lemma calculusSequence_eval:
  "planCourseSequence calculusCore demoInfo [] demoSemesters 15 = calculusSequence"
  by code_simp



lemma parsed_terms:
  "parseSemester ''Fall 2024'' = \<lparr>season = Some ''fall'', year = Some 2024\<rparr>"
  "parseSemester ''Fall 2025'' = \<lparr>season = Some ''fall'', year = Some 2025\<rparr>"
  "parseSemester ''Sometime'' = \<lparr>season = Some ''sometime'', year = None\<rparr>"
  by code_simp+

lemma calculusPlan_eval:
  "generateGraduationPlan demoCatalog (calculusRequest 15) = Inr calculusPlan"
  by code_simp


section \<open>Properties of the placement\<close>

lemma distinct_concat_filters:
  "distinct ks \<Longrightarrow> distinct (map f xs) \<Longrightarrow>
     distinct (concat (map (\<lambda>k. map f (filter (\<lambda>x. g x = k) xs)) ks))"
proof (induction ks)
  case Nil
  then show ?case by simp
next
  case (Cons k ks)
  have inj: "inj_on f (set xs)" using Cons.prems(2) by (simp add: distinct_map)
  have d1: "distinct (map f (filter (\<lambda>x. g x = k) xs))"
    using Cons.prems(2) by (simp add: distinct_map_filter)
  have d2: "distinct (concat (map (\<lambda>k. map f (filter (\<lambda>x. g x = k) xs)) ks))"
    using Cons by simp
  have "f x \<noteq> f y" if "x \<in> set xs" "g x = k" "y \<in> set xs" "g y \<in> set ks" for x y
  proof
    assume "f x = f y"
    with inj that(1,3) have "x = y" by (auto dest: inj_onD)
    with that(2,4) Cons.prems(1) show False by auto
  qed
  then have "set (map f (filter (\<lambda>x. g x = k) xs))
      \<inter> set (concat (map (\<lambda>k. map f (filter (\<lambda>x. g x = k) xs)) ks)) = {}"
    by auto
  with d1 d2 show ?case by simp
qed

lemma concat_nonempty: "concat (map h (filter (\<lambda>s. h s \<noteq> []) xs)) = concat (map h xs)"
  by (induction xs) auto

lemma course_id_toPlannedCourse [simp]: "course_id (toPlannedCourse c) = course_id c"
  by (simp add: toPlannedCourse_def)

lemma planned_ids:
  "map course_id (concat (map sem_courses (filter (\<lambda>sem. sem_courses sem \<noteq> []) (map (buildSemesterPlan ps) avail))))
     = concat (map (\<lambda>k. map course_id (filter (\<lambda>c. plannedSemester c = k) ps)) (map semesterKey avail))"
proof -
  have "concat (map sem_courses (filter (\<lambda>sem. sem_courses sem \<noteq> []) (map (buildSemesterPlan ps) avail)))
      = concat (map sem_courses (map (buildSemesterPlan ps) avail))"
    by (rule concat_nonempty)
  then show ?thesis
    by (simp add: map_concat comp_def buildSemesterPlan_def Let_def)
qed

text \<open>
  C9. A course identifier appears at most once across the initial completed set and the
  placed courses: the identifiers of the course sequence are distinct and disjoint from
  the completed identifiers, whatever the requirements list (also when several categories
  list one identifier); and in the plan that the generator returns, the identifiers of
  the courses of all semesters together are distinct (no course is in two semesters or
  twice in one) and disjoint from the completed courses of the request.
\<close>

theorem course_placed_at_most_once:
  "distinct (map course_id (planCourseSequence reqs info completed sems cap))
   \<and> course_id ` set (planCourseSequence reqs info completed sems cap) \<inter> set completed = {}
   \<and> (generateGraduationPlan fetch request = Inr plan \<longrightarrow>
        distinct (map course_id (concat (map sem_courses (semesters plan))))
        \<and> set (map course_id (concat (map sem_courses (semesters plan))))
            \<inter> set (map course_id (completedCourses request)) = {})"
proof -
  have planner: "distinct (map course_id (planCourseSequence reqs info completed sems cap))
      \<and> course_id ` set (planCourseSequence reqs info completed sems cap) \<inter> set completed = {}"
    for reqs info completed sems cap
    using planCourseSequence_blocks [of cap sems completed reqs info] term_blocks_distinct
    by blast
  have "distinct (map course_id (concat (map sem_courses (semesters plan))))
        \<and> set (map course_id (concat (map sem_courses (semesters plan))))
            \<inter> set (map course_id (completedCourses request)) = {}"
    if gen: "generateGraduationPlan fetch request = Inr plan"
  proof -
    from gen obtain avail rs ps where
      ps: "ps = planCourseSequence rs (fetchCourseInformation fetch (collectRequiredCourses rs))
            (map course_id (completedCourses request)) avail (maxCreditsPerSemester request)"
      and avail: "\<exists>s t. avail = generateSemesterSequence (parseSemester s) (parseSemester t)"
      and "semesters plan = filter (\<lambda>sem. sem_courses sem \<noteq> []) (map (buildSemesterPlan ps) avail)"
      by (rule generateGraduationPlan_Inr) blast
    then have ids: "map course_id (concat (map sem_courses (semesters plan)))
        = concat (map (\<lambda>k. map course_id (filter (\<lambda>c. plannedSemester c = k) ps)) (map semesterKey avail))"
      by (simp only: planned_ids)
    have dk: "distinct (map semesterKey avail)"
      using avail generateSemesterSequence_distinct_keys by blast
    have dp: "distinct (map course_id ps)"
      and cp: "course_id ` set ps \<inter> set (map course_id (completedCourses request)) = {}"
      using planner unfolding ps by blast+
    have "set (concat (map (\<lambda>k. map course_id (filter (\<lambda>c. plannedSemester c = k) ps)) (map semesterKey avail)))
        \<subseteq> course_id ` set ps" by auto
    with cp distinct_concat_filters [OF dk dp, of plannedSemester] ids show ?thesis
      by auto
  qed
  with planner show ?thesis by blast
qed

theorem course_placed_at_most_once_witness:
  "distinct (map course_id (planCourseSequence calculusCore demoInfo [] demoSemesters 15))
   \<and> generateGraduationPlan demoCatalog (calculusRequest 15) = Inr calculusPlan
   \<and> distinct (map course_id (concat (map sem_courses (semesters calculusPlan))))"
  using course_placed_at_most_once [of calculusCore demoInfo "[]" demoSemesters 15 demoCatalog
      "calculusRequest 15" calculusPlan]
  by (simp add: calculusPlan_eval)

text \<open>
  C1, as amended. Every prerequisite of a placed course is in the initial completed set or
  is a course placed before it in the course sequence; and a course placed before
  another is filed under the same available semester or an earlier one. (A course and its
  prerequisite can share a term: \<^verbatim>\<open>completed\<close> grows at each placement, not at the end of
  the term.)
\<close>

theorem prerequisites_placed_before:
  assumes "ps = planCourseSequence reqs info completed sems cap" and "n < length ps"
  shows "set (prerequisites (ps ! n)) \<subseteq> set completed \<union> course_id ` set (take n ps)
       \<and> (\<forall>j<n. \<exists>a b. a \<le> b \<and> b < length sems
              \<and> plannedSemester (ps ! j) = semesterKey (sems ! a)
              \<and> plannedSemester (ps ! n) = semesterKey (sems ! b))"
proof -
  have tb: "term_blocks cap (map semesterKey sems) (set completed) ps"
    using planCourseSequence_blocks [of cap sems completed reqs info] assms(1) by simp
  have "\<exists>a b. a \<le> b \<and> b < length sems
              \<and> plannedSemester (ps ! j) = semesterKey (sems ! a)
              \<and> plannedSemester (ps ! n) = semesterKey (sems ! b)" if "j < n" for j
  proof -
    from term_blocks_order [OF tb assms(2) that] obtain a b where
      ab: "a \<le> b" "b < length (map semesterKey sems)"
      "plannedSemester (ps ! j) = map semesterKey sems ! a"
      "plannedSemester (ps ! n) = map semesterKey sems ! b" by blast
    then show ?thesis by (intro exI [of _ a] exI [of _ b]) auto
  qed
  with term_blocks_prereqs [OF tb assms(2)] show ?thesis by blast
qed

theorem prerequisites_placed_before_witness:
  "calculusSequence = planCourseSequence calculusCore demoInfo [] demoSemesters 15
   \<and> 1 < length calculusSequence
   \<and> set (prerequisites (calculusSequence ! 1)) \<subseteq> set [] \<union> course_id ` set (take 1 calculusSequence)
   \<and> plannedSemester (calculusSequence ! 0) = plannedSemester (calculusSequence ! 1)"
  using prerequisites_placed_before [of calculusSequence calculusCore demoInfo "[]" demoSemesters 15 1]
  by (simp add: calculusSequence_eval) (simp add: calculusSequence_def math140_def math141_def PlannedCourse.extend_def)

text \<open>
  The cap is tested before each placement: when the keys of the available semesters are
  distinct, the credits of the courses placed before a course into its term sum to less
  than the cap.
\<close>

lemma planner_credits_below_cap:
  assumes "ps = planCourseSequence reqs info completed sems cap"
    and "distinct (map semesterKey sems)" and "n < length ps"
  shows "sum_list (map credits (filter (\<lambda>d. plannedSemester d = plannedSemester (ps ! n)) (take n ps))) < cap"
  using term_blocks_credits [OF assms(2) _ assms(3)]
    planCourseSequence_blocks [of cap sems completed reqs info] assms(1)
  by blast



section \<open>Counterexamples to the placement claims as stated\<close>

text \<open>
  C1 as stated fails on the scenario of the specification itself: \<^verbatim>\<open>MATH141\<close>, whose
  prerequisite is \<^verbatim>\<open>MATH140\<close>, is placed into fall 2024 together with it.
\<close>

theorem prerequisite_shares_term:
  "generateGraduationPlan demoCatalog (calculusRequest 15) =
     Inr \<lparr>plan_majors = [demoProgram calculusCore], plan_minors = [],
       semesters = [fall2024 [math140 ''core'', math141 ''core''] 8],
       totalCredits = 8, completionDate = ''Fall 2025'',
       warnings = [''fall 2024: Under full-time status with 8 credits''],
       unmetRequirements = []\<rparr>
   \<and> prerequisites (math141 ''core'') = [''MATH140'']"
  using calculusPlan_eval by (simp add: calculusPlan_def math141_def)

text \<open>
  C2 as stated fails with a cap of 7: the second course of 4 credits is placed while the
  running total is 4, and fall 2024 holds 8 credits.
\<close>

theorem term_exceeds_cap:
  "generateGraduationPlan demoCatalog (calculusRequest 7) =
     Inr \<lparr>plan_majors = [demoProgram calculusCore], plan_minors = [],
       semesters = [fall2024 [math140 ''core'', math141 ''core''] 8],
       totalCredits = 8, completionDate = ''Fall 2025'',
       warnings = [''fall 2024: Overloaded with 8 credits'',
                   ''fall 2024: Under full-time status with 8 credits''],
       unmetRequirements = []\<rparr>"
  by code_simp


section \<open>Properties of the generator\<close>

lemma filter_nth_source:
  "n < length (filter P xs) \<Longrightarrow>
     \<exists>m<length xs. xs ! m = filter P xs ! n \<and> filter P (take m xs) = take n (filter P xs)"
proof (induction xs arbitrary: n)
  case Nil
  then show ?case by simp
next
  case (Cons x xs)
  show ?case
  proof (cases "P x")
    case False
    with Cons.prems have "n < length (filter P xs)" by simp
    from Cons.IH [OF this] obtain m where
      "m < length xs" "xs ! m = filter P xs ! n" "filter P (take m xs) = take n (filter P xs)" by blast
    with False show ?thesis by (intro exI [of _ "Suc m"]) simp
  next
    case True
    show ?thesis
    proof (cases n)
      case 0
      with True show ?thesis by (intro exI [of _ 0]) simp
    next
      case (Suc n')
      with True Cons.prems have "n' < length (filter P xs)" by simp
      from Cons.IH [OF this] obtain m where
        "m < length xs" "xs ! m = filter P xs ! n'" "filter P (take m xs) = take n' (filter P xs)" by blast
      with True Suc show ?thesis by (intro exI [of _ "Suc m"]) simp
    qed
  qed
qed

lemma credits_toPlannedCourse [simp]: "credits (toPlannedCourse c) = credits c"
  by (simp add: toPlannedCourse_def)

text \<open>
  C2, as amended. The cap is tested before each placement, not after it: for every
  semester of the generated plan and every course in it, the credits of the courses
  listed before it in that semester sum to less than \<^verbatim>\<open>maxCreditsPerSemester\<close>. (The
  semester's total may pass the cap by the last course placed.)
\<close>

theorem running_credits_below_cap:
  assumes "generateGraduationPlan fetch request = Inr plan"
    and "sem \<in> set (semesters plan)" and "n < length (sem_courses sem)"
  shows "sum_list (map credits (take n (sem_courses sem))) < maxCreditsPerSemester request"
proof -
  from assms(1) obtain avail rs ps where
    ps: "ps = planCourseSequence rs (fetchCourseInformation fetch (collectRequiredCourses rs))
            (map course_id (completedCourses request)) avail (maxCreditsPerSemester request)"
    and avail: "\<exists>s t. avail = generateSemesterSequence (parseSemester s) (parseSemester t)"
    and "semesters plan = filter (\<lambda>sem. sem_courses sem \<noteq> []) (map (buildSemesterPlan ps) avail)"
    by (rule generateGraduationPlan_Inr) blast
  with assms(2) obtain s where s: "s \<in> set avail" "sem = buildSemesterPlan ps s" by auto
  let ?P = "\<lambda>course. plannedSemester course = semesterKey s"
  have courses: "sem_courses sem = map toPlannedCourse (filter ?P ps)"
    using s(2) by (simp add: buildSemesterPlan_def Let_def)
  with assms(3) have "n < length (filter ?P ps)" by simp
  from filter_nth_source [OF this] obtain m where
    m: "m < length ps" "ps ! m = filter ?P ps ! n" "filter ?P (take m ps) = take n (filter ?P ps)" by blast
  have "filter ?P ps ! n \<in> set (filter ?P ps)" using \<open>n < length (filter ?P ps)\<close> nth_mem by blast
  then have key: "plannedSemester (ps ! m) = semesterKey s" using m(2) by simp
  have tb: "term_blocks (maxCreditsPerSemester request) (map semesterKey avail)
      (set (map course_id (completedCourses request))) ps"
    using planCourseSequence_blocks unfolding ps by blast
  have dk: "distinct (map semesterKey avail)"
    using avail generateSemesterSequence_distinct_keys by blast
  from term_blocks_credits [OF dk tb m(1)] key m(3)
  have "sum_list (map credits (take n (filter ?P ps))) < maxCreditsPerSemester request" by simp
  moreover have "map credits (take n (sem_courses sem)) = map credits (take n (filter ?P ps))"
    unfolding courses by (simp add: take_map)
  ultimately show ?thesis by simp
qed

theorem running_credits_below_cap_witness:
  "generateGraduationPlan demoCatalog (calculusRequest 15) = Inr calculusPlan
   \<and> fall2024 [math140 ''core'', math141 ''core''] 8 \<in> set (semesters calculusPlan)
   \<and> 1 < length (sem_courses (fall2024 [math140 ''core'', math141 ''core''] 8))
   \<and> sum_list (map credits (take 1 (sem_courses (fall2024 [math140 ''core'', math141 ''core''] 8))))
       < maxCreditsPerSemester (calculusRequest 15)"
  using running_credits_below_cap [of demoCatalog "calculusRequest 15" calculusPlan
      "fall2024 [math140 ''core'', math141 ''core''] 8" 1]
  by (simp add: calculusPlan_eval) (simp add: calculusPlan_def fall2024_def)

lemma buildSemesterPlan_total:
  "sem_totalCredits (buildSemesterPlan cs sem) = sum_list (map credits (sem_courses (buildSemesterPlan cs sem)))"
  by (simp add: buildSemesterPlan_def Let_def)

lemma sum_nonempty_semesters:
  "(\<And>s. s \<in> set sems \<Longrightarrow> sem_totalCredits s = sum_list (map credits (sem_courses s))) \<Longrightarrow>
   sum_list (map sem_totalCredits (filter (\<lambda>s. sem_courses s \<noteq> []) sems))
     = sum_list (map sem_totalCredits sems)"
  by (induction sems) auto

text \<open>
  C8. The \<^verbatim>\<open>totalCredits\<close> of the returned plan is the sum of the credit totals of its
  semester plans plus the sum of the credits of the completed courses of the request.
\<close>

theorem total_credits_is_sum:
  assumes "generateGraduationPlan fetch request = Inr plan"
  shows "totalCredits plan =
           sum_list (map sem_totalCredits (semesters plan))
           + sum_list (map credits (completedCourses request))"
proof -
  from assms obtain avail ps where
    sems: "semesters plan = filter (\<lambda>sem. sem_courses sem \<noteq> []) (map (buildSemesterPlan ps) avail)"
    and total: "totalCredits plan = sum_list (map sem_totalCredits (map (buildSemesterPlan ps) avail))
                          + sum_list (map credits (completedCourses request))"
    by (rule generateGraduationPlan_Inr)
  have "sum_list (map sem_totalCredits (filter (\<lambda>s. sem_courses s \<noteq> []) (map (buildSemesterPlan ps) avail)))
          = sum_list (map sem_totalCredits (map (buildSemesterPlan ps) avail))"
    by (rule sum_nonempty_semesters) (auto simp: buildSemesterPlan_total)
  with sems total show ?thesis by simp
qed

theorem total_credits_is_sum_witness:
  "generateGraduationPlan demoCatalog (calculusRequest 15) = Inr calculusPlan
   \<and> totalCredits calculusPlan =
       sum_list (map sem_totalCredits (semesters calculusPlan))
       + sum_list (map credits (completedCourses (calculusRequest 15)))"
  using total_credits_is_sum [of demoCatalog "calculusRequest 15" calculusPlan]
  by (simp add: calculusPlan_eval)

text \<open>
  The requirements that go to the placement are those of which no category with the same
  label, the requirement itself or a twin, is satisfied by the completed courses.
\<close>

lemma remaining_requirements_by_label:
  "req \<in> set (remainingRequirements reqs completed) \<longleftrightarrow>
     req \<in> set reqs
     \<and> \<not> (\<exists>twin\<in>set reqs. category twin = category req \<and> requiredCoursesOf twin \<noteq> []
              \<and> set (requiredCoursesOf twin) \<subseteq> course_id ` set completed)"
proof -
  have sat: "set (checkSatisfiedRequirements reqs completed) =
      category ` {x \<in> set reqs. requiredCoursesOf x \<noteq> []
                    \<and> set (requiredCoursesOf x) \<subseteq> course_id ` set completed}"
    by (auto simp: checkSatisfiedRequirements_def Let_def list_all_iff)
  show ?thesis
    unfolding remainingRequirements_def Let_def set_filter sat image_iff
    by (simp del: image_subset_iff) metis
qed






text \<open>
  C3. The claim: a category is listed in \<^verbatim>\<open>unmetRequirements\<close> exactly when none of its
  courses is placed or completed. The code looks at the placed courses only: here the one
  course of \<open>core\<close> is completed, \<^verbatim>\<open>checkSatisfiedRequirements\<close> counts the category as
  satisfied, and \<^verbatim>\<open>findUnmetRequirements\<close> lists it.
\<close>

theorem completed_category_listed_unmet:
  "generateGraduationPlan demoCatalog completedCoreRequest =
     Inr (emptyPlan [\<lparr>category = ''core'', courses = Some [''MATH140'']\<rparr>] 4 ''Spring 2025'' [''core''])"
  by code_simp

text \<open>
  C4. The claim: a course that the catalog cannot resolve gets the fallback record and
  stays placeable. The code stores the fallback only when the lookup raises
  (\<^verbatim>\<open>CMSC131\<close>, placed with 3 credits and its identifier as name); when the catalog
  answers with an error status (\<^verbatim>\<open>XXXX101\<close>) nothing is stored and the course is never
  placed.
\<close>

theorem unresolved_course_not_placed:
  "generateGraduationPlan demoCatalog unknownCourseRequest =
     Inr \<lparr>plan_majors = [demoProgram [\<lparr>category = ''core'', courses = Some [''XXXX101'', ''CMSC131'']\<rparr>]],
       plan_minors = [],
       semesters = [fall2024 [\<lparr>course_id = ''CMSC131'', credits = 3, name = ''CMSC131'',
                      prerequisites = [], satisfies = [''core'']\<rparr>] 3],
       totalCredits = 3, completionDate = ''Spring 2025'',
       warnings = [''fall 2024: Under full-time status with 3 credits''],
       unmetRequirements = []\<rparr>"
  by code_simp

lemma planSemesters_capped:
  "m \<le> 0 \<Longrightarrow> planSemesters reqs i m sems (pl, S) = (pl, S)"
  by (induction sems) (auto simp: planRequirements_capped)

lemma planCourseSequence_capped:
  "cap \<le> 0 \<Longrightarrow> planCourseSequence reqs info completed sems cap = []"
  by (simp add: planCourseSequence_def planSemesters_capped)

lemma generateSemesterSequence_precedes:
  "term_precedes target start \<Longrightarrow> generateSemesterSequence start target = []"
  by (auto simp: term_precedes_def generateSemesterSequence_def semesterLoop_stop split: option.splits)

lemma generateSemesterSequence_NaN:
  "year start = None \<or> year target = None \<Longrightarrow> generateSemesterSequence start target = []"
  by (auto simp: generateSemesterSequence_def split: option.splits)

lemma no_courses_no_semesters:
  "filter (\<lambda>sem. sem_courses sem \<noteq> []) (map (buildSemesterPlan []) avail) = []"
  by (induction avail) (auto simp: buildSemesterPlan_def)

text \<open>
  C5, as amended. A POST request (its body an object) whose \<^verbatim>\<open>majors\<close> is missing or
  empty is answered 400 before any placement; one whose majors are given and whose starting
  or target term is absent or not a string is answered 500 before any placement. A term
  text with a year that does not parse, a credit cap that is not positive and a target
  term that precedes the starting term are not rejected: when the other fields are as the
  request type declares them, the years are held exactly and the terms from the starting
  term to the target fit an array, the request is answered 200 with a plan that has no
  semesters.
\<close>

theorem handler_rejects_and_accepts:
  "(majors r = None \<or> majors r = Some [] \<longrightarrow>
      handler fetch ''POST'' r = BadRequest ''At least one major is required'')
   \<and> (majors r = Some ms \<and> ms \<noteq> [] \<and> (startingSemester r = None \<or> graduationTarget r = None) \<longrightarrow>
        handler fetch ''POST'' r = ServerError ''Failed to generate graduation plan'')
   \<and> (majors r = Some ms \<and> ms \<noteq> [] \<and> startingSemester r = Some s \<and> graduationTarget r = Some t
        \<and> minors r \<noteq> Null \<and> completedCourses_field r = Some cs
        \<and> safe_term (parseSemester s) \<and> safe_term (parseSemester t)
        \<and> length (generateSemesterSequence (parseSemester s) (parseSemester t)) < 4294967296
        \<and> (maxCreditsPerSemester r \<le> 0
            \<or> term_precedes (parseSemester t) (parseSemester s)
            \<or> year (parseSemester s) = None \<or> year (parseSemester t) = None) \<longrightarrow>
        (\<exists>plan. handler fetch ''POST'' r = Success plan \<and> semesters plan = []))"
proof (intro conjI impI)
  assume "majors r = None \<or> majors r = Some []"
  then show "handler fetch ''POST'' r = BadRequest ''At least one major is required''"
    by (auto simp: handler_def)
next
  assume "majors r = Some ms \<and> ms \<noteq> [] \<and> (startingSemester r = None \<or> graduationTarget r = None)"
  then show "handler fetch ''POST'' r = ServerError ''Failed to generate graduation plan''"
    by (auto simp: handler_def generateGraduationPlan_def split: option.splits)
next
  assume a: "majors r = Some ms \<and> ms \<noteq> [] \<and> startingSemester r = Some s \<and> graduationTarget r = Some t
        \<and> minors r \<noteq> Null \<and> completedCourses_field r = Some cs
        \<and> safe_term (parseSemester s) \<and> safe_term (parseSemester t)
        \<and> length (generateSemesterSequence (parseSemester s) (parseSemester t)) < 4294967296
        \<and> (maxCreditsPerSemester r \<le> 0
            \<or> term_precedes (parseSemester t) (parseSemester s)
            \<or> year (parseSemester s) = None \<or> year (parseSemester t) = None)"
  then obtain mins where mins: "defaulted (minors r) = Some mins"
    by (cases "minors r") (auto simp: defaulted_def)
  with a obtain plan where p: "generateGraduationPlan fetch r = Inr plan"
    by (auto simp: generateGraduationPlan_def Let_def)
  from a consider "maxCreditsPerSemester r \<le> 0"
    | "generateSemesterSequence (parseSemester s) (parseSemester t) = []"
    using generateSemesterSequence_precedes generateSemesterSequence_NaN by blast
  then have "semesters plan = []"
  proof cases
    case 1
    with p a mins show ?thesis
      by (auto simp: generateGraduationPlan_def Let_def planCourseSequence_capped no_courses_no_semesters)
  next
    case 2
    with p a mins show ?thesis
      by (auto simp: generateGraduationPlan_def Let_def)
  qed
  with p a show "\<exists>plan. handler fetch ''POST'' r = Success plan \<and> semesters plan = []"
    by (auto simp: handler_def)
qed

theorem handler_rejects_and_accepts_witness:
  "majors noMajorsRequest = None
   \<and> handler demoCatalog ''POST'' noMajorsRequest = BadRequest ''At least one major is required''
   \<and> majors noTermsRequest = Some [demoProgram calculusCore] \<and> [demoProgram calculusCore] \<noteq> []
   \<and> startingSemester noTermsRequest = None
   \<and> handler demoCatalog ''POST'' noTermsRequest = ServerError ''Failed to generate graduation plan''
   \<and> majors (calculusRequest 0) = Some [demoProgram calculusCore]
   \<and> startingSemester (calculusRequest 0) = Some ''Fall 2024''
   \<and> graduationTarget (calculusRequest 0) = Some ''Fall 2025''
   \<and> minors (calculusRequest 0) \<noteq> Null \<and> completedCourses_field (calculusRequest 0) = Some []
   \<and> safe_term (parseSemester ''Fall 2024'') \<and> safe_term (parseSemester ''Fall 2025'')
   \<and> length (generateSemesterSequence (parseSemester ''Fall 2024'') (parseSemester ''Fall 2025'')) = 4
   \<and> maxCreditsPerSemester (calculusRequest 0) \<le> 0
   \<and> (\<exists>plan. handler demoCatalog ''POST'' (calculusRequest 0) = Success plan \<and> semesters plan = [])"
proof -
  have four: "length (generateSemesterSequence \<lparr>season = Some ''fall'', year = Some 2024\<rparr>
      \<lparr>season = Some ''fall'', year = Some 2025\<rparr>) = 4"
    by code_simp
  from handler_rejects_and_accepts [of noMajorsRequest demoCatalog]
    handler_rejects_and_accepts [of noTermsRequest demoCatalog "[demoProgram calculusCore]"]
    handler_rejects_and_accepts [of "calculusRequest 0" demoCatalog "[demoProgram calculusCore]"
      "''Fall 2024''" "''Fall 2025''" "[]"]
  show ?thesis
    by (simp add: noMajorsRequest_def noTermsRequest_def calculusRequest_def demoRequest_def
        parsed_terms safe_term_def safe_integer_def four)
qed

text \<open>
  C5 as stated fails: a cap of 0, a target term before the starting term and a term
  value with no year are each answered 200 with a plan.
\<close>

theorem invalid_requests_answered_with_plan:
  "handler demoCatalog ''POST'' (demoRequest calculusCore [] ''Fall 2024'' ''Spring 2025'' 0)
     = Success (emptyPlan calculusCore 0 ''Spring 2025'' [''core''])
   \<and> handler demoCatalog ''POST'' (demoRequest calculusCore [] ''Fall 2025'' ''Fall 2024'' 15)
     = Success (emptyPlan calculusCore 0 ''Fall 2024'' [''core''])
   \<and> handler demoCatalog ''POST'' (demoRequest calculusCore [] ''Sometime'' ''Fall 2024'' 15)
     = Success (emptyPlan calculusCore 0 ''Fall 2024'' [''core''])"
  by code_simp

end
